theory Spec2Isabelle
  imports Main "HOL-Library.Product_Lexorder" "HOL-Library.Char_ord" "HOL-Library.Multiset"
begin

section \<open>Values of the run-time library\<close>

text \<open>
  The script \<^verbatim>\<open>planning_update.py\<close> is embedded function by function. Python
  exceptions are values of \<open>error\<close>; a function that may raise returns
  \<open>error + 'a\<close> with \<open>Inl\<close> for the exception.
\<close>

datatype error =
    TypeError | ValueError | OverflowError | IndexError | NameError | RequestError

subsection \<open>Dates and times\<close>

text \<open>
  A \<^verbatim>\<open>datetime.datetime\<close> object (naive, no time zone) has seven integer fields.
  Python compares two of them as the tuples of their fields.
\<close>

record datetime =
  dt_year :: int
  dt_month :: int
  dt_day :: int
  dt_hour :: int
  dt_minute :: int
  dt_second :: int
  dt_microsecond :: int

definition dt_tuple :: "datetime \<Rightarrow> int \<times> int \<times> int \<times> int \<times> int \<times> int \<times> int" where
  "dt_tuple d = (dt_year d, dt_month d, dt_day d, dt_hour d, dt_minute d, dt_second d,
                 dt_microsecond d)"

definition dt_less :: "datetime \<Rightarrow> datetime \<Rightarrow> bool" where
  "dt_less a b = (dt_tuple a < dt_tuple b)"

definition dt_ge :: "datetime \<Rightarrow> datetime \<Rightarrow> bool" where
  "dt_ge a b = (dt_tuple a \<ge> dt_tuple b)"

text \<open>The proleptic Gregorian calendar of \<^verbatim>\<open>datetime.py\<close> and \<^verbatim>\<open>calendar.py\<close>.\<close>

definition MINYEAR :: int where "MINYEAR = 1"
definition MAXYEAR :: int where "MAXYEAR = 9999"
definition MAXORDINAL :: int where "MAXORDINAL = 3652059"

definition isleap :: "int \<Rightarrow> bool" where
  "isleap y = (y mod 4 = 0 \<and> (y mod 100 \<noteq> 0 \<or> y mod 400 = 0))"

definition DAYS_IN_MONTH :: "int list" where
  "DAYS_IN_MONTH = [-1, 31, 28, 31, 30, 31, 30, 31, 31, 30, 31, 30, 31]"

definition DAYS_BEFORE_MONTH :: "int list" where
  "DAYS_BEFORE_MONTH = [-1, 0, 31, 59, 90, 120, 151, 181, 212, 243, 273, 304, 334]"

definition days_before_year :: "int \<Rightarrow> int" where
  "days_before_year y = (y - 1) * 365 + (y - 1) div 4 - (y - 1) div 100 + (y - 1) div 400"

text \<open>Both month functions are only called with a month in \<open>1..12\<close>.\<close>

definition days_in_month :: "int \<Rightarrow> int \<Rightarrow> int" where
  "days_in_month y m =
     (if m = 2 \<and> isleap y then 29 else DAYS_IN_MONTH ! nat m)"

definition days_before_month :: "int \<Rightarrow> int \<Rightarrow> int" where
  "days_before_month y m =
     DAYS_BEFORE_MONTH ! nat m + (if m > 2 \<and> isleap y then 1 else 0)"

definition ymd2ord :: "int \<Rightarrow> int \<Rightarrow> int \<Rightarrow> int" where
  "ymd2ord y m d = days_before_year y + days_before_month y m + d"

definition ord2ymd :: "int \<Rightarrow> int \<times> int \<times> int" where
  "ord2ymd n0 =
     (let n = n0 - 1;
          n400 = n div 146097; n = n mod 146097;
          n100 = n div 36524; n = n mod 36524;
          n4 = n div 1461; n = n mod 1461;
          n1 = n div 365; n = n mod 365;
          y = n400 * 400 + 1 + n100 * 100 + n4 * 4 + n1
      in if n1 = 4 \<or> n100 = 4 then (y - 1, 12, 31)
         else
           let leapyear = (n1 = 3 \<and> (n4 \<noteq> 24 \<or> n100 = 3));
               m = (n + 50) div 32;
               preceding = DAYS_BEFORE_MONTH ! nat m + (if m > 2 \<and> leapyear then 1 else 0)
           in if preceding > n
              then (y, m - 1,
                    n - (preceding - (DAYS_IN_MONTH ! nat (m - 1)
                                      + (if m - 1 = 2 \<and> leapyear then 1 else 0))) + 1)
              else (y, m, n - preceding + 1))"

text \<open>
  The constructor \<^verbatim>\<open>datetime(y, m, d, H, M, S, us)\<close> with the range checks of
  \<^verbatim>\<open>_check_date_fields\<close> and \<^verbatim>\<open>_check_time_fields\<close>.
\<close>

definition valid_date :: "int \<Rightarrow> int \<Rightarrow> int \<Rightarrow> bool" where
  "valid_date y m d =
     (MINYEAR \<le> y \<and> y \<le> MAXYEAR \<and> 1 \<le> m \<and> m \<le> 12 \<and> 1 \<le> d \<and> d \<le> days_in_month y m)"

definition valid_time :: "int \<Rightarrow> int \<Rightarrow> int \<Rightarrow> int \<Rightarrow> bool" where
  "valid_time H M S us =
     (0 \<le> H \<and> H \<le> 23 \<and> 0 \<le> M \<and> M \<le> 59 \<and> 0 \<le> S \<and> S \<le> 59 \<and> 0 \<le> us \<and> us \<le> 999999)"

definition datetime_new ::
  "int \<Rightarrow> int \<Rightarrow> int \<Rightarrow> int \<Rightarrow> int \<Rightarrow> int \<Rightarrow> int \<Rightarrow> error + datetime" where
  "datetime_new y m d H M S us =
     (if valid_date y m d \<and> valid_time H M S us
      then Inr \<lparr>dt_year = y, dt_month = m, dt_day = d, dt_hour = H, dt_minute = M,
                dt_second = S, dt_microsecond = us\<rparr>
      else Inl ValueError)"

definition valid_datetime :: "datetime \<Rightarrow> bool" where
  "valid_datetime d =
     (valid_date (dt_year d) (dt_month d) (dt_day d)
      \<and> valid_time (dt_hour d) (dt_minute d) (dt_second d) (dt_microsecond d))"

definition toordinal :: "datetime \<Rightarrow> int" where
  "toordinal d = ymd2ord (dt_year d) (dt_month d) (dt_day d)"

definition weekday :: "datetime \<Rightarrow> nat" where
  "weekday d = nat ((toordinal d + 6) mod 7)"

subsection \<open>Parsing a due date\<close>

text \<open>
  \<^verbatim>\<open>datetime.strptime(s, "%Y-%m-%dT%H:%M:%S.000Z")\<close> compiles the format to the regular
  expression
  \<^verbatim>\<open>(\d\d\d\d)-(1[0-2]|0[1-9]|[1-9])-(3[0-1]|[1-2]\d|0[1-9]|[1-9]| [1-9])T(2[0-3]|[0-1]\d|\d):([0-5]\d|\d):(6[0-1]|[0-5]\d|\d)\.000Z\<close>,
  matched case-insensitively at the start of the string; the whole string must be
  consumed and the fields must form a date. Each directive below lists its alternatives
  in the order of the expression, and the match is the first one that a backtracking
  matcher finds. Strings are byte strings; the digits are the ASCII digits.
\<close>

definition is_digit :: "char \<Rightarrow> bool" where
  "is_digit c = (CHR ''0'' \<le> c \<and> c \<le> CHR ''9'')"

definition digit_val :: "char \<Rightarrow> int" where
  "digit_val c = int (of_char c) - 48"

definition in_range :: "char \<Rightarrow> char \<Rightarrow> char \<Rightarrow> bool" where
  "in_range lo hi c = (lo \<le> c \<and> c \<le> hi)"

definition two :: "(char \<Rightarrow> bool) \<Rightarrow> (char \<Rightarrow> bool) \<Rightarrow> string \<Rightarrow> (int \<times> string) list" where
  "two P Q s = (case s of a # b # r \<Rightarrow>
                  (if P a \<and> Q b then [(10 * digit_val a + digit_val b, r)] else [])
                | _ \<Rightarrow> [])"

definition one :: "(char \<Rightarrow> bool) \<Rightarrow> string \<Rightarrow> (int \<times> string) list" where
  "one P s = (case s of a # r \<Rightarrow> (if P a then [(digit_val a, r)] else []) | _ \<Rightarrow> [])"

definition space_one :: "(char \<Rightarrow> bool) \<Rightarrow> string \<Rightarrow> (int \<times> string) list" where
  "space_one P s = (case s of a # b # r \<Rightarrow>
                      (if a = CHR '' '' \<and> P b then [(digit_val b, r)] else [])
                    | _ \<Rightarrow> [])"

definition lit :: "char list \<Rightarrow> string \<Rightarrow> string list" where
  "lit cs s = (case s of a # r \<Rightarrow> (if a \<in> set cs then [r] else []) | _ \<Rightarrow> [])"

definition re_Y :: "string \<Rightarrow> (int \<times> string) list" where
  "re_Y s = (case s of a # b # c # d # r \<Rightarrow>
               (if is_digit a \<and> is_digit b \<and> is_digit c \<and> is_digit d
                then [(1000 * digit_val a + 100 * digit_val b + 10 * digit_val c + digit_val d, r)]
                else [])
             | _ \<Rightarrow> [])"

definition re_m :: "string \<Rightarrow> (int \<times> string) list" where
  "re_m s = two (in_range CHR ''1'' CHR ''1'') (in_range CHR ''0'' CHR ''2'') s
          @ two (in_range CHR ''0'' CHR ''0'') (in_range CHR ''1'' CHR ''9'') s
          @ one (in_range CHR ''1'' CHR ''9'') s"

definition re_d :: "string \<Rightarrow> (int \<times> string) list" where
  "re_d s = two (in_range CHR ''3'' CHR ''3'') (in_range CHR ''0'' CHR ''1'') s
          @ two (in_range CHR ''1'' CHR ''2'') is_digit s
          @ two (in_range CHR ''0'' CHR ''0'') (in_range CHR ''1'' CHR ''9'') s
          @ one (in_range CHR ''1'' CHR ''9'') s
          @ space_one (in_range CHR ''1'' CHR ''9'') s"

definition re_H :: "string \<Rightarrow> (int \<times> string) list" where
  "re_H s = two (in_range CHR ''2'' CHR ''2'') (in_range CHR ''0'' CHR ''3'') s
          @ two (in_range CHR ''0'' CHR ''1'') is_digit s
          @ one is_digit s"

definition re_M :: "string \<Rightarrow> (int \<times> string) list" where
  "re_M s = two (in_range CHR ''0'' CHR ''5'') is_digit s @ one is_digit s"

definition re_S :: "string \<Rightarrow> (int \<times> string) list" where
  "re_S s = two (in_range CHR ''6'' CHR ''6'') (in_range CHR ''0'' CHR ''1'') s
          @ two (in_range CHR ''0'' CHR ''5'') is_digit s
          @ one is_digit s"

definition dateformat_matches ::
  "string \<Rightarrow> ((int \<times> int \<times> int \<times> int \<times> int \<times> int) \<times> string) list" where
  "dateformat_matches s =
     [((Y, m, d, H, M, S), r12).
        (Y, r1) \<leftarrow> re_Y s, r2 \<leftarrow> lit ''-'' r1,
        (m, r3) \<leftarrow> re_m r2, r4 \<leftarrow> lit ''-'' r3,
        (d, r5) \<leftarrow> re_d r4, r6 \<leftarrow> lit ''Tt'' r5,
        (H, r7) \<leftarrow> re_H r6, r8 \<leftarrow> lit '':'' r7,
        (M, r9) \<leftarrow> re_M r8, r10 \<leftarrow> lit '':'' r9,
        (S, r11) \<leftarrow> re_S r10,
        r12 \<leftarrow> [r. ra \<leftarrow> lit ''.'' r11, rb \<leftarrow> lit ''0'' ra, rc \<leftarrow> lit ''0'' rb,
                    rd \<leftarrow> lit ''0'' rc, r \<leftarrow> lit ''Zz'' rd]]"

text \<open>
  The argument is \<open>None\<close> when the record's \<^verbatim>\<open>due\<close> is JSON \<^verbatim>\<open>null\<close> (a task without a
  due date): \<^verbatim>\<open>strptime\<close> then raises \<^verbatim>\<open>TypeError\<close>.
\<close>

definition strptime :: "string option \<Rightarrow> error + datetime" where
  "strptime data =
     (case data of
        None \<Rightarrow> Inl TypeError
      | Some s \<Rightarrow>
          (case dateformat_matches s of
             [] \<Rightarrow> Inl ValueError
           | ((Y, m, d, H, M, S), r) # _ \<Rightarrow>
               if r \<noteq> [] then Inl ValueError
               else datetime_new Y m d H M S 0))"

subsection \<open>Parsing a recurrence rule\<close>

text \<open>
  \<^verbatim>\<open>re.match(r"(\d+) (\w+)", desc).group(1, 2)\<close>: a non-empty run of digits at the start
  of the notes, one space, a non-empty run of word characters. Both runs are greedy and
  giving a character back never helps (the character after the digits must be the space
  and the second run is last), so the match is the longest run each time. A string is the
  UTF-8 encoding of the Python string: the ASCII letters, the ASCII digits and the
  underscore are word characters, and so is every byte of a character beyond ASCII
  (Cyrillic letters are word characters); digits beyond ASCII are not modelled.
\<close>

definition is_word :: "char \<Rightarrow> bool" where
  "is_word c =
     (is_digit c \<or> in_range CHR ''a'' CHR ''z'' c \<or> in_range CHR ''A'' CHR ''Z'' c
      \<or> c = CHR ''_'' \<or> CHR 0x7F < c)"

definition re_match_period :: "string \<Rightarrow> (string \<times> string) option" where
  "re_match_period desc =
     (let g1 = takeWhile is_digit desc; r = dropWhile is_digit desc
      in if g1 = [] then None
         else case r of
                [] \<Rightarrow> None
              | c # r' \<Rightarrow>
                  if c \<noteq> CHR '' '' then None
                  else let g2 = takeWhile is_word r'
                       in if g2 = [] then None else Some (g1, g2))"

text \<open>
  \<^verbatim>\<open>int(s)\<close> on a run of decimal digits. Python's integers are unbounded; the limit
  that recent interpreters put on the number of digits of a conversion (4300 by default)
  is not modelled.
\<close>

definition int_of_digits :: "string \<Rightarrow> int" where
  "int_of_digits s = foldl (\<lambda>a c. 10 * a + digit_val c) 0 s"

section \<open>The data model\<close>

text \<open>
  The three data classes of the script. The class \<^verbatim>\<open>List\<close> is the record \<open>BoardList\<close>;
  every field carries its class as a prefix, since the classes share field names.
\<close>

record BoardList =
  List_name :: string
  List_identifier :: string

record Card =
  Card_name :: string
  Card_identifier :: string
  Card_due :: datetime
  Card_period_len :: int
  Card_period_type :: string

record CardToSort =
  CardToSort_name :: string
  CardToSort_identifier :: string
  CardToSort_due :: datetime

text \<open>
  The JSON records of the board service, with the keys the script reads. A list record
  has \<^verbatim>\<open>name\<close> and \<^verbatim>\<open>id\<close>. A card record has \<^verbatim>\<open>name\<close>, \<^verbatim>\<open>id\<close>, \<^verbatim>\<open>due\<close> (JSON
  \<^verbatim>\<open>null\<close>, here \<open>None\<close>, for a card without a due date), \<^verbatim>\<open>desc\<close> and \<^verbatim>\<open>labels\<close>; a
  label may lack its \<^verbatim>\<open>name\<close> (\<^verbatim>\<open>label.get("name", "")\<close>).
\<close>

record raw_list =
  rl_name :: string
  rl_id :: string

record raw_label =
  lb_name :: "string option"

record raw_card =
  rc_name :: string
  rc_id :: string
  rc_due :: "string option"
  rc_desc :: string
  rc_labels :: "raw_label list"

text \<open>
  What a run does to the outside: the log lines (level and message, without the values
  formatted into it) and the requests to the board service. A \<^verbatim>\<open>PUT\<close> request is kept
  by its parameters instead of its URL:
  \<^verbatim>\<open>cards/{id}?dueComplete=false&due={due}&idList={list_id}\<close> is \<open>Relocate id due list_id\<close>,
  and \<^verbatim>\<open>cards/{id}?pos=bottom\<close> is \<open>PosBottom id\<close>.
\<close>

datatype level = INFO | ERROR | CRITICAL

datatype msg =
    Cant_get_lists | Received_lists | Not_all_necessary_lists
  | Failed_to_receive_cards | Cards_found
  | Check_card | Filtered_not_regular | Cant_parse_due_date | Filtered_due_date
  | Cant_parse_period
  | Failed_to_calculate_due | Cant_find_target_list | Failed_to_find_target_list_id
  | Failed_to_update_due | Due_date_updated
  | Failed_to_push_back
  | Started_to_update | Start_to_process_list | Start_to_process_card | Start_to_sort
  | Cards_received_and_constructed | Cards_sorted | Card_order_set

datatype put_cmd = Relocate string datetime string | PosBottom string

datatype event = Log level msg | GetLists | GetCards string | Put put_cmd

section \<open>The task filter\<close>

definition is_regular :: "raw_card \<Rightarrow> bool" where
  "is_regular crd =
     list_ex (\<lambda>label. (case lb_name label of None \<Rightarrow> [] | Some n \<Rightarrow> n) = ''Regular'')
       (rc_labels crd)"

text \<open>
  The loop of \<^verbatim>\<open>filter_out_cards\<close>, from the cards still to visit (\<open>crd\<close> is the loop variable \<^verbatim>\<open>card\<close>). Its state is the list
  \<^verbatim>\<open>cards_to_process\<close>, the binding of the two locals \<^verbatim>\<open>period_len\<close> and \<^verbatim>\<open>period_type\<close>
  (\<open>None\<close> while they are unbound; they are bound together by the tuple assignment and
  keep their values over the iterations), and the log. When the rule does not match, the
  handler only logs, and the \<^verbatim>\<open>append\<close> that follows reads the two locals: unbound, that
  raises \<^verbatim>\<open>UnboundLocalError\<close>, a \<^verbatim>\<open>NameError\<close>, which nothing in the function catches.
\<close>

fun filter_loop ::
  "datetime \<Rightarrow> raw_card list \<Rightarrow> Card list \<Rightarrow> (int \<times> string) option \<Rightarrow> event list
     \<Rightarrow> event list \<times> (error + Card list)" where
  "filter_loop current_time [] cards_to_process period lg = (lg, Inr cards_to_process)"
| "filter_loop current_time (crd # cards) cards_to_process period lg =
     (let lg = lg @ [Log INFO Check_card] in
      if \<not> is_regular crd
      then filter_loop current_time cards cards_to_process period
             (lg @ [Log INFO Filtered_not_regular])
      else
        case strptime (rc_due crd) of
          Inl e \<Rightarrow>
            filter_loop current_time cards cards_to_process period
              (lg @ [Log ERROR Cant_parse_due_date])
        | Inr due \<Rightarrow>
            if dt_ge due current_time
            then filter_loop current_time cards cards_to_process period
                   (lg @ [Log INFO Filtered_due_date])
            else
              (case (case re_match_period (rc_desc crd) of
                       Some (g1, g2) \<Rightarrow> (Some (int_of_digits g1, g2), lg)
                     | None \<Rightarrow> (period, lg @ [Log ERROR Cant_parse_period])) of
                 (None, lg) \<Rightarrow> (lg, Inl NameError)
               | (Some (period_len, period_type), lg) \<Rightarrow>
                   filter_loop current_time cards
                     (cards_to_process @
                        [\<lparr>Card_name = rc_name crd, Card_identifier = rc_id crd,
                          Card_due = due, Card_period_len = period_len,
                          Card_period_type = period_type\<rparr>])
                     (Some (period_len, period_type)) lg))"

definition filter_out_cards :: "datetime \<Rightarrow> raw_card list \<Rightarrow> event list \<times> (error + Card list)" where
  "filter_out_cards current_time cards = filter_loop current_time cards [] None []"

section \<open>Relative deltas\<close>

text \<open>
  \<^verbatim>\<open>dateutil.relativedelta\<close>: the relative fields (plural names) are added, the absolute
  fields (singular names) replace the field of the date. A weekday is kept by its index
  (Monday is 0); built from an integer it carries no count.
\<close>

record relativedelta =
  rd_years :: int
  rd_months :: int
  rd_days :: int
  rd_leapdays :: int
  rd_hours :: int
  rd_minutes :: int
  rd_seconds :: int
  rd_microseconds :: int
  rd_year :: "int option"
  rd_month :: "int option"
  rd_day :: "int option"
  rd_weekday :: "nat option"
  rd_hour :: "int option"
  rd_minute :: "int option"
  rd_second :: "int option"
  rd_microsecond :: "int option"

definition rd_default :: relativedelta where
  "rd_default =
     \<lparr>rd_years = 0, rd_months = 0, rd_days = 0, rd_leapdays = 0, rd_hours = 0,
      rd_minutes = 0, rd_seconds = 0, rd_microseconds = 0,
      rd_year = None, rd_month = None, rd_day = None, rd_weekday = None,
      rd_hour = None, rd_minute = None, rd_second = None, rd_microsecond = None\<rparr>"

text \<open>
  One step of \<^verbatim>\<open>_fix\<close>: a field \<open>x\<close> beyond \<open>b - 1\<close> in absolute value keeps its
  remainder and carries its quotient, both with the sign of \<open>x\<close>.
\<close>

definition carry :: "int \<Rightarrow> int \<Rightarrow> int \<times> int" where
  "carry x b =
     (if \<bar>x\<bar> > b - 1 then ((\<bar>x\<bar> mod b) * sgn x, (\<bar>x\<bar> div b) * sgn x) else (x, 0))"

definition rd_fix :: "relativedelta \<Rightarrow> relativedelta" where
  "rd_fix r =
     (let (us, c) = carry (rd_microseconds r) 1000000;
          (s, c) = carry (rd_seconds r + c) 60;
          (mi, c) = carry (rd_minutes r + c) 60;
          (h, c) = carry (rd_hours r + c) 24;
          d = rd_days r + c;
          (mo, c) = carry (rd_months r) 12;
          y = rd_years r + c
      in r\<lparr>rd_years := y, rd_months := mo, rd_days := d, rd_hours := h, rd_minutes := mi,
            rd_seconds := s, rd_microseconds := us\<rparr>)"

text \<open>
  \<^verbatim>\<open>yearday\<close> and \<^verbatim>\<open>nlyearday\<close> become a month and a day of the month: the first
  entry of the table that the day of the year does not exceed.
\<close>

definition ydayidx :: "int list" where
  "ydayidx = [31, 59, 90, 120, 151, 181, 212, 243, 273, 304, 334, 366]"

fun yday_scan :: "int \<Rightarrow> nat \<Rightarrow> int list \<Rightarrow> error + int \<times> int" where
  "yday_scan yday idx [] = Inl ValueError"
| "yday_scan yday idx (ydays # rest) =
     (if yday \<le> ydays
      then Inr (int idx + 1, if idx = 0 then yday else yday - ydayidx ! (idx - 1))
      else yday_scan yday (Suc idx) rest)"

definition rd_of_yday :: "int \<Rightarrow> int \<Rightarrow> error + relativedelta" where
  "rd_of_yday yday leapdays =
     (if yday = 0 then Inr (rd_default\<lparr>rd_leapdays := leapdays\<rparr>)
      else case yday_scan yday 0 ydayidx of
             Inl e \<Rightarrow> Inl e
           | Inr (m, d) \<Rightarrow>
               Inr (rd_default\<lparr>rd_leapdays := leapdays, rd_month := Some m, rd_day := Some d\<rparr>))"

text \<open>
  \<^verbatim>\<open>relativedelta(**{key: value})\<close> with an integer value: the constructor called with
  one keyword argument. A key that is not a parameter of the constructor raises
  \<^verbatim>\<open>TypeError\<close>. With \<^verbatim>\<open>dt1\<close> or \<^verbatim>\<open>dt2\<close> alone the constructor takes the branch of
  the relative fields and ignores the argument.
\<close>

definition relativedelta_kw :: "string \<Rightarrow> int \<Rightarrow> error + relativedelta" where
  "relativedelta_kw key v =
     (if key = ''dt1'' \<or> key = ''dt2'' then Inr (rd_fix rd_default)
      else if key = ''years'' then Inr (rd_fix (rd_default\<lparr>rd_years := v\<rparr>))
      else if key = ''months'' then Inr (rd_fix (rd_default\<lparr>rd_months := v\<rparr>))
      else if key = ''days'' then Inr (rd_fix (rd_default\<lparr>rd_days := v\<rparr>))
      else if key = ''leapdays'' then Inr (rd_fix (rd_default\<lparr>rd_leapdays := v\<rparr>))
      else if key = ''weeks'' then Inr (rd_fix (rd_default\<lparr>rd_days := v * 7\<rparr>))
      else if key = ''hours'' then Inr (rd_fix (rd_default\<lparr>rd_hours := v\<rparr>))
      else if key = ''minutes'' then Inr (rd_fix (rd_default\<lparr>rd_minutes := v\<rparr>))
      else if key = ''seconds'' then Inr (rd_fix (rd_default\<lparr>rd_seconds := v\<rparr>))
      else if key = ''microseconds'' then Inr (rd_fix (rd_default\<lparr>rd_microseconds := v\<rparr>))
      else if key = ''year'' then Inr (rd_fix (rd_default\<lparr>rd_year := Some v\<rparr>))
      else if key = ''month'' then Inr (rd_fix (rd_default\<lparr>rd_month := Some v\<rparr>))
      else if key = ''day'' then Inr (rd_fix (rd_default\<lparr>rd_day := Some v\<rparr>))
      else if key = ''weekday'' then
        (if 0 \<le> v \<and> v < 7 then Inr (rd_fix (rd_default\<lparr>rd_weekday := Some (nat v)\<rparr>))
         else if - 7 \<le> v \<and> v < 0 then Inr (rd_fix (rd_default\<lparr>rd_weekday := Some (nat (v + 7))\<rparr>))
         else Inl IndexError)
      else if key = ''yearday'' then
        (case rd_of_yday v (if v > 59 then - 1 else 0) of
           Inl e \<Rightarrow> Inl e | Inr r \<Rightarrow> Inr (rd_fix r))
      else if key = ''nlyearday'' then
        (case rd_of_yday v 0 of Inl e \<Rightarrow> Inl e | Inr r \<Rightarrow> Inr (rd_fix r))
      else if key = ''hour'' then Inr (rd_fix (rd_default\<lparr>rd_hour := Some v\<rparr>))
      else if key = ''minute'' then Inr (rd_fix (rd_default\<lparr>rd_minute := Some v\<rparr>))
      else if key = ''second'' then Inr (rd_fix (rd_default\<lparr>rd_second := Some v\<rparr>))
      else if key = ''microsecond'' then Inr (rd_fix (rd_default\<lparr>rd_microsecond := Some v\<rparr>))
      else Inl TypeError)"

text \<open>
  A \<^verbatim>\<open>timedelta\<close> is its length in microseconds; the constructor refuses more than
  999999999 days. Adding one to a date goes through the ordinal of the day and raises
  \<^verbatim>\<open>OverflowError\<close> outside the years 1 to 9999.
\<close>

definition US_PER_DAY :: int where "US_PER_DAY = 86400000000"

definition timedelta_new :: "int \<Rightarrow> int \<Rightarrow> int \<Rightarrow> int \<Rightarrow> int \<Rightarrow> error + int" where
  "timedelta_new days hours minutes seconds microseconds =
     (let t = (((days * 24 + hours) * 60 + minutes) * 60 + seconds) * 1000000 + microseconds
      in if \<bar>t div US_PER_DAY\<bar> > 999999999 then Inl OverflowError else Inr t)"

definition to_us :: "datetime \<Rightarrow> int" where
  "to_us d =
     (((toordinal d * 24 + dt_hour d) * 60 + dt_minute d) * 60 + dt_second d) * 1000000
     + dt_microsecond d"

definition datetime_add :: "datetime \<Rightarrow> int \<Rightarrow> error + datetime" where
  "datetime_add dt td =
     (let t = to_us dt + td; days = t div US_PER_DAY; rest = t mod US_PER_DAY
      in if 0 < days \<and> days \<le> MAXORDINAL
         then (case ord2ymd days of
                 (y, m, d) \<Rightarrow>
                   Inr \<lparr>dt_year = y, dt_month = m, dt_day = d,
                        dt_hour = rest div 3600000000,
                        dt_minute = rest div 60000000 mod 60,
                        dt_second = rest div 1000000 mod 60,
                        dt_microsecond = rest mod 1000000\<rparr>)
         else Inl OverflowError)"

text \<open>\<^verbatim>\<open>calendar.monthrange(year, month)[1]\<close>, the length of the month.\<close>

definition monthrange_ndays :: "int \<Rightarrow> int \<Rightarrow> error + int" where
  "monthrange_ndays y m =
     (if \<not> (1 \<le> m \<and> m \<le> 12) then Inl ValueError
      else Inr (DAYS_IN_MONTH ! nat m + (if m = 2 \<and> isleap y then 1 else 0)))"

definition or_else :: "int option \<Rightarrow> int \<Rightarrow> int" where
  "or_else a b = (case a of None \<Rightarrow> b | Some x \<Rightarrow> if x = 0 then b else x)"

definition if_set :: "int option \<Rightarrow> int \<Rightarrow> int" where
  "if_set a b = (case a of None \<Rightarrow> b | Some x \<Rightarrow> x)"

text \<open>
  \<^verbatim>\<open>date + relativedelta\<close> (\<^verbatim>\<open>relativedelta.__radd__\<close>): years and months first, the
  day cut to the length of the month, the absolute fields replaced, the rest added as a
  \<^verbatim>\<open>timedelta\<close>, and at last the move forward to the weekday.
\<close>

definition rd_add :: "relativedelta \<Rightarrow> datetime \<Rightarrow> error + datetime" where
  "rd_add r other =
     (let year = or_else (rd_year r) (dt_year other) + rd_years r;
          month = or_else (rd_month r) (dt_month other);
          (year, month) =
            (if rd_months r \<noteq> 0
             then (let month = month + rd_months r
                   in if month > 12 then (year + 1, month - 12)
                      else if month < 1 then (year - 1, month + 12)
                      else (year, month))
             else (year, month))
      in case monthrange_ndays year month of
           Inl e \<Rightarrow> Inl e
         | Inr ndays \<Rightarrow>
             let day = min ndays (or_else (rd_day r) (dt_day other));
                 days = (if rd_leapdays r \<noteq> 0 \<and> month > 2 \<and> isleap year
                         then rd_days r + rd_leapdays r else rd_days r)
             in (case datetime_new year month day
                        (if_set (rd_hour r) (dt_hour other))
                        (if_set (rd_minute r) (dt_minute other))
                        (if_set (rd_second r) (dt_second other))
                        (if_set (rd_microsecond r) (dt_microsecond other)) of
                   Inl e \<Rightarrow> Inl e
                 | Inr repl \<Rightarrow>
                     (case timedelta_new days (rd_hours r) (rd_minutes r) (rd_seconds r)
                             (rd_microseconds r) of
                        Inl e \<Rightarrow> Inl e
                      | Inr td \<Rightarrow>
                          (case datetime_add repl td of
                             Inl e \<Rightarrow> Inl e
                           | Inr ret \<Rightarrow>
                               (case rd_weekday r of
                                  None \<Rightarrow> Inr ret
                                | Some wd \<Rightarrow>
                                    datetime_add ret
                                      (((7 - int (weekday ret) + int wd) mod 7)
                                       * US_PER_DAY))))))"

section \<open>The board\<close>

text \<open>
  The seven names of \<^verbatim>\<open>list_names\<close>, Monday first: the Russian names of the days of the
  week, each given by the bytes of its UTF-8 encoding.
\<close>

definition Monday :: string where
  "Monday =
    [CHR 0xD0, CHR 0x9F, CHR 0xD0, CHR 0xBE, CHR 0xD0, CHR 0xBD, CHR 0xD0, CHR 0xB5, CHR
     0xD0, CHR 0xB4, CHR 0xD0, CHR 0xB5, CHR 0xD0, CHR 0xBB, CHR 0xD1, CHR 0x8C, CHR
     0xD0, CHR 0xBD, CHR 0xD0, CHR 0xB8, CHR 0xD0, CHR 0xBA]"

definition Tuesday :: string where
  "Tuesday =
    [CHR 0xD0, CHR 0x92, CHR 0xD1, CHR 0x82, CHR 0xD0, CHR 0xBE, CHR 0xD1, CHR 0x80, CHR
     0xD0, CHR 0xBD, CHR 0xD0, CHR 0xB8, CHR 0xD0, CHR 0xBA]"

definition Wednesday :: string where
  "Wednesday =
    [CHR 0xD0, CHR 0xA1, CHR 0xD1, CHR 0x80, CHR 0xD0, CHR 0xB5, CHR 0xD0, CHR 0xB4, CHR
     0xD0, CHR 0xB0]"

definition Thursday :: string where
  "Thursday =
    [CHR 0xD0, CHR 0xA7, CHR 0xD0, CHR 0xB5, CHR 0xD1, CHR 0x82, CHR 0xD0, CHR 0xB2, CHR
     0xD0, CHR 0xB5, CHR 0xD1, CHR 0x80, CHR 0xD0, CHR 0xB3]"

definition Friday :: string where
  "Friday =
    [CHR 0xD0, CHR 0x9F, CHR 0xD1, CHR 0x8F, CHR 0xD1, CHR 0x82, CHR 0xD0, CHR 0xBD, CHR
     0xD0, CHR 0xB8, CHR 0xD1, CHR 0x86, CHR 0xD0, CHR 0xB0]"

definition Saturday :: string where
  "Saturday =
    [CHR 0xD0, CHR 0xA1, CHR 0xD1, CHR 0x83, CHR 0xD0, CHR 0xB1, CHR 0xD0, CHR 0xB1, CHR
     0xD0, CHR 0xBE, CHR 0xD1, CHR 0x82, CHR 0xD0, CHR 0xB0]"

definition Sunday :: string where
  "Sunday =
    [CHR 0xD0, CHR 0x92, CHR 0xD0, CHR 0xBE, CHR 0xD1, CHR 0x81, CHR 0xD0, CHR 0xBA, CHR
     0xD1, CHR 0x80, CHR 0xD0, CHR 0xB5, CHR 0xD1, CHR 0x81, CHR 0xD0, CHR 0xB5, CHR
     0xD0, CHR 0xBD, CHR 0xD1, CHR 0x8C, CHR 0xD0, CHR 0xB5]"

definition list_names :: "string list" where
  "list_names = [Monday, Tuesday, Wednesday, Thursday, Friday, Saturday, Sunday]"

text \<open>
  The board service behind \<^verbatim>\<open>Requester\<close>. Its three methods act on a state \<open>'s\<close> of
  the outside (the board and the network) and either return or raise. The run itself
  carries that state and the trace of what it has logged and requested.
\<close>

record 's Requester =
  Requester_get_lists :: "'s \<Rightarrow> (error + raw_list list) \<times> 's"
  Requester_get_cards :: "string \<Rightarrow> 's \<Rightarrow> (error + raw_card list) \<times> 's"
  Requester_trello_put :: "put_cmd \<Rightarrow> 's \<Rightarrow> error option \<times> 's"

record 's run =
  world :: 's
  trace :: "event list"

definition logger :: "level \<Rightarrow> msg \<Rightarrow> 's run \<Rightarrow> 's run" where
  "logger lv m st = st\<lparr>trace := trace st @ [Log lv m]\<rparr>"

definition trello_put :: "'s Requester \<Rightarrow> put_cmd \<Rightarrow> 's run \<Rightarrow> error option \<times> 's run" where
  "trello_put requester cmd st =
     (case Requester_trello_put requester cmd (world st) of
        (r, w) \<Rightarrow> (r, \<lparr>world = w, trace = trace st @ [Put cmd]\<rparr>))"

definition get_lists :: "'s Requester \<Rightarrow> 's run \<Rightarrow> BoardList list \<times> 's run" where
  "get_lists requester st =
     (case Requester_get_lists requester (world st) of
        (r, w) \<Rightarrow>
          let st = \<lparr>world = w, trace = trace st @ [GetLists]\<rparr>
          in (case r of
                Inl e \<Rightarrow> ([], logger CRITICAL Cant_get_lists st)
              | Inr lists_response \<Rightarrow>
                  let lsts = map (\<lambda>l. \<lparr>List_name = rl_name l, List_identifier = rl_id l\<rparr>)
                               (filter (\<lambda>l. rl_name l \<in> set list_names) lists_response);
                      st = logger INFO Received_lists st
                  in (lsts,
                      if length list_names \<noteq> length lsts
                      then logger ERROR Not_all_necessary_lists st else st)))"

definition get_cards :: "'s Requester \<Rightarrow> BoardList \<Rightarrow> 's run \<Rightarrow> raw_card list \<times> 's run" where
  "get_cards requester l st =
     (case Requester_get_cards requester (List_identifier l) (world st) of
        (r, w) \<Rightarrow>
          let st = \<lparr>world = w, trace = trace st @ [GetCards (List_identifier l)]\<rparr>
          in (case r of
                Inl e \<Rightarrow> ([], logger CRITICAL Failed_to_receive_cards st)
              | Inr cards \<Rightarrow> (cards, logger INFO Cards_found st)))"

section \<open>Advancing and routing one task\<close>

text \<open>
  The loop of \<^verbatim>\<open>process_card\<close>: while the due date is before \<^verbatim>\<open>current_time\<close>, build
  the delta from the task's unit and count and add it. The loop ends with the first
  exception or with the first date that is not before \<^verbatim>\<open>current_time\<close>; it may also
  run forever, and then the value is \<open>None\<close>.
\<close>

partial_function (option) advance ::
  "datetime \<Rightarrow> string \<Rightarrow> int \<Rightarrow> datetime \<Rightarrow> (error + datetime) option" where
  "advance current_time period_type period_len due =
     (if dt_less due current_time
      then (case relativedelta_kw period_type period_len of
              Inl e \<Rightarrow> Some (Inl e)
            | Inr delta \<Rightarrow>
                (case rd_add delta due of
                   Inl e \<Rightarrow> Some (Inl e)
                 | Inr due' \<Rightarrow> advance current_time period_type period_len due'))
      else Some (Inr due))"

text \<open>
  The search for the target list (\<open>lsts\<close> is the argument \<^verbatim>\<open>lists\<close>): the first list of the run whose name is the name of
  the weekday. The index is below seven, and an index out of range would raise.
\<close>

definition target_list :: "datetime \<Rightarrow> BoardList list \<Rightarrow> error + BoardList option" where
  "target_list due lsts =
     (if weekday due < length list_names
      then Inr (find (\<lambda>l. List_name l = list_names ! weekday due) lsts)
      else Inl IndexError)"

definition process_card ::
  "'s Requester \<Rightarrow> datetime \<Rightarrow> Card \<Rightarrow> BoardList list \<Rightarrow> 's run \<Rightarrow> 's run option" where
  "process_card requester current_time crd lsts st =
     (case advance current_time (Card_period_type crd) (Card_period_len crd) (Card_due crd) of
        None \<Rightarrow> None
      | Some (Inl e) \<Rightarrow> Some (logger ERROR Failed_to_calculate_due st)
      | Some (Inr due) \<Rightarrow>
          (case target_list due lsts of
             Inl e \<Rightarrow> Some (logger ERROR Failed_to_find_target_list_id st)
           | Inr None \<Rightarrow> Some (logger ERROR Cant_find_target_list st)
           | Inr (Some l) \<Rightarrow>
               (case trello_put requester
                       (Relocate (Card_identifier crd) due (List_identifier l)) st of
                  (Some e, st) \<Rightarrow> Some (logger ERROR Failed_to_update_due st)
                | (None, st) \<Rightarrow> Some (logger INFO Due_date_updated st))))"

section \<open>Ordering a list\<close>

fun construct_cards_to_order :: "raw_card list \<Rightarrow> error + CardToSort list" where
  "construct_cards_to_order [] = Inr []"
| "construct_cards_to_order (crd # cards) =
     (case strptime (rc_due crd) of
        Inl e \<Rightarrow> Inl e
      | Inr due \<Rightarrow>
          (case construct_cards_to_order cards of
             Inl e \<Rightarrow> Inl e
           | Inr rest \<Rightarrow>
               Inr (\<lparr>CardToSort_name = rc_name crd, CardToSort_identifier = rc_id crd,
                     CardToSort_due = due\<rparr> # rest)))"

text \<open>\<^verbatim>\<open>sorted\<close> is a stable sort; the key is the due date, compared as its tuple.\<close>

definition sort_cards :: "CardToSort list \<Rightarrow> CardToSort list" where
  "sort_cards cards = sort_key (\<lambda>x. dt_tuple (CardToSort_due x)) cards"

definition set_card_order :: "'s Requester \<Rightarrow> CardToSort \<Rightarrow> 's run \<Rightarrow> 's run" where
  "set_card_order requester crd st =
     (case trello_put requester (PosBottom (CardToSort_identifier crd)) st of
        (Some e, st) \<Rightarrow> logger ERROR Failed_to_push_back st
      | (None, st) \<Rightarrow> st)"

section \<open>The pipeline\<close>

text \<open>
  The two loops of \<^verbatim>\<open>main\<close> and their inner loops. A run that an exception leaves is
  \<open>(Some e, st)\<close>, with the state reached when it was raised; a run that does not return
  is \<open>None\<close>.
\<close>

fun process_cards ::
  "'s Requester \<Rightarrow> datetime \<Rightarrow> Card list \<Rightarrow> BoardList list \<Rightarrow> 's run \<Rightarrow> 's run option" where
  "process_cards requester current_time [] lsts st = Some st"
| "process_cards requester current_time (crd # cards) lsts st =
     (case process_card requester current_time crd lsts
             (logger INFO Start_to_process_card st) of
        None \<Rightarrow> None
      | Some st \<Rightarrow> process_cards requester current_time cards lsts st)"

fun update_due_dates ::
  "'s Requester \<Rightarrow> datetime \<Rightarrow> BoardList list \<Rightarrow> BoardList list \<Rightarrow> 's run
     \<Rightarrow> (error option \<times> 's run) option" where
  "update_due_dates requester current_time [] lsts st = Some (None, st)"
| "update_due_dates requester current_time (l # ls) lsts st =
     (case get_cards requester l (logger INFO Start_to_process_list st) of
        (raw, st) \<Rightarrow>
          (case filter_out_cards current_time raw of
             (lg, Inl e) \<Rightarrow> Some (Some e, st\<lparr>trace := trace st @ lg\<rparr>)
           | (lg, Inr cards) \<Rightarrow>
               (case process_cards requester current_time cards lsts
                       (st\<lparr>trace := trace st @ lg\<rparr>) of
                  None \<Rightarrow> None
                | Some st \<Rightarrow> update_due_dates requester current_time ls lsts st)))"

fun set_cards_order :: "'s Requester \<Rightarrow> CardToSort list \<Rightarrow> 's run \<Rightarrow> 's run" where
  "set_cards_order requester [] st = st"
| "set_cards_order requester (crd # cards) st =
     set_cards_order requester cards (set_card_order requester crd st)"

fun sort_lists :: "'s Requester \<Rightarrow> BoardList list \<Rightarrow> 's run \<Rightarrow> error option \<times> 's run" where
  "sort_lists requester [] st = (None, st)"
| "sort_lists requester (l # ls) st =
     (case get_cards requester l (logger INFO Start_to_process_list st) of
        (raw, st) \<Rightarrow>
          (case construct_cards_to_order raw of
             Inl e \<Rightarrow> (Some e, st)
           | Inr cards \<Rightarrow>
               let st = logger INFO Cards_received_and_constructed st;
                   cards = sort_cards cards;
                   st = logger INFO Cards_sorted st;
                   st = set_cards_order requester cards st
               in sort_lists requester ls (logger INFO Card_order_set st)))"

text \<open>
  \<^verbatim>\<open>main\<close>, from the requester already built (reading the credentials is outside the
  model) and with the time \<^verbatim>\<open>current_time\<close> taken when the script was loaded.
\<close>

definition main :: "'s Requester \<Rightarrow> datetime \<Rightarrow> 's \<Rightarrow> (error option \<times> 's run) option" where
  "main requester current_time w =
     (case get_lists requester \<lparr>world = w, trace = []\<rparr> of
        (lsts, st) \<Rightarrow>
          (case update_due_dates requester current_time lsts lsts
                  (logger INFO Started_to_update st) of
             None \<Rightarrow> None
           | Some (Some e, st) \<Rightarrow> Some (Some e, st)
           | Some (None, st) \<Rightarrow> Some (sort_lists requester lsts (logger INFO Start_to_sort st))))"

section \<open>Vocabulary of the properties\<close>

text \<open>
  A task reaches the parse of its recurrence rule when it carries the label and its due
  date parses and lies before \<^verbatim>\<open>current_time\<close>.
\<close>

definition past_due :: "datetime \<Rightarrow> raw_card \<Rightarrow> bool" where
  "past_due now r =
     (case strptime (rc_due r) of Inl e \<Rightarrow> False | Inr due \<Rightarrow> dt_less due now)"

definition eligible :: "datetime \<Rightarrow> raw_card \<Rightarrow> bool" where
  "eligible now r = (is_regular r \<and> past_due now r)"

definition parsed_period :: "raw_card \<Rightarrow> (int \<times> string) option" where
  "parsed_period r =
     (case re_match_period (rc_desc r) of
        Some (g1, g2) \<Rightarrow> Some (int_of_digits g1, g2)
      | None \<Rightarrow> None)"

text \<open>
  The binding of \<^verbatim>\<open>period_len\<close> and \<^verbatim>\<open>period_type\<close> after a task: a task that reaches
  the parse and matches binds them anew, every other task leaves them as they are.
\<close>

definition rebind ::
  "datetime \<Rightarrow> (int \<times> string) option \<Rightarrow> raw_card \<Rightarrow> (int \<times> string) option" where
  "rebind now period r =
     (if eligible now r
      then (case parsed_period r of Some p \<Rightarrow> Some p | None \<Rightarrow> period)
      else period)"


definition make_card :: "raw_card \<Rightarrow> datetime \<Rightarrow> int \<times> string \<Rightarrow> Card" where
  "make_card r due p =
     \<lparr>Card_name = rc_name r, Card_identifier = rc_id r, Card_due = due,
      Card_period_len = fst p, Card_period_type = snd p\<rparr>"

definition ckey :: "Card \<Rightarrow> string \<times> string \<times> (error + datetime)" where
  "ckey c = (Card_name c, Card_identifier c, Inr (Card_due c))"

definition rkey :: "raw_card \<Rightarrow> string \<times> string \<times> (error + datetime)" where
  "rkey r = (rc_name r, rc_id r, strptime (rc_due r))"

subsection \<open>Example inputs\<close>

definition at_midnight :: "int \<Rightarrow> int \<Rightarrow> int \<Rightarrow> datetime" where
  "at_midnight y m d =
     \<lparr>dt_year = y, dt_month = m, dt_day = d, dt_hour = 0, dt_minute = 0, dt_second = 0,
      dt_microsecond = 0\<rparr>"

definition now0 :: datetime where
  "now0 = at_midnight 2023 1 20"

definition regular_label :: raw_label where
  "regular_label = \<lparr>lb_name = Some ''Regular''\<rparr>"

definition task_weekly :: raw_card where
  "task_weekly =
     \<lparr>rc_name = ''water plants'', rc_id = ''c1'', rc_due = Some ''2023-01-01T00:00:00.000Z'',
      rc_desc = ''1 weeks'', rc_labels = [regular_label]\<rparr>"

definition task_no_rule :: raw_card where
  "task_no_rule =
     \<lparr>rc_name = ''call home'', rc_id = ''c2'', rc_due = Some ''2023-01-05T00:00:00.000Z'',
      rc_desc = ''every week'', rc_labels = [regular_label]\<rparr>"

definition task_future :: raw_card where
  "task_future =
     \<lparr>rc_name = ''pay rent'', rc_id = ''c3'', rc_due = Some ''2023-02-01T00:00:00.000Z'',
      rc_desc = ''1 months'', rc_labels = [regular_label]\<rparr>"

definition task_unlabelled :: raw_card where
  "task_unlabelled =
     \<lparr>rc_name = ''buy milk'', rc_id = ''c4'', rc_due = Some ''2023-01-02T00:00:00.000Z'',
      rc_desc = ''2 days'', rc_labels = [\<lparr>lb_name = Some ''Home''\<rparr>, \<lparr>lb_name = None\<rparr>]\<rparr>"

definition task_no_due :: raw_card where
  "task_no_due =
     \<lparr>rc_name = ''some day'', rc_id = ''c5'', rc_due = None,
      rc_desc = [], rc_labels = []\<rparr>"

text \<open>
  A board with the Monday list only, whose cards are always the same; every request
  succeeds. The state of the outside is trivial.
\<close>

definition monday_list :: raw_list where
  "monday_list = \<lparr>rl_name = Monday, rl_id = ''L1''\<rparr>"

definition fixed_board :: "raw_card list \<Rightarrow> unit Requester" where
  "fixed_board cards =
     \<lparr>Requester_get_lists = (\<lambda>w. (Inr [monday_list], w)),
      Requester_get_cards = (\<lambda>list_id w. (Inr cards, w)),
      Requester_trello_put = (\<lambda>cmd w. (None, w))\<rparr>"

text \<open>The \<^verbatim>\<open>PUT\<close> requests of a trace, in the order in which they were sent.\<close>

fun puts :: "event list \<Rightarrow> put_cmd list" where
  "puts [] = []"
| "puts (Put cmd # es) = cmd # puts es"
| "puts (e # es) = puts es"

text \<open>A board service whose list request fails.\<close>

definition unreachable_board :: "unit Requester" where
  "unreachable_board =
     \<lparr>Requester_get_lists = (\<lambda>w. (Inl RequestError, w)),
      Requester_get_cards = (\<lambda>list_id w. (Inr [task_weekly], w)),
      Requester_trello_put = (\<lambda>cmd w. (None, w))\<rparr>"

text \<open>Two tasks of one list, the later one first.\<close>

definition task_feb10 :: raw_card where
  "task_feb10 =
     \<lparr>rc_name = ''tenth'', rc_id = ''c10'', rc_due = Some ''2023-02-10T00:00:00.000Z'',
      rc_desc = [], rc_labels = []\<rparr>"

definition task_feb05 :: raw_card where
  "task_feb05 =
     \<lparr>rc_name = ''fifth'', rc_id = ''c05'', rc_due = Some ''2023-02-05T00:00:00.000Z'',
      rc_desc = [], rc_labels = []\<rparr>"

definition sortable :: "raw_card \<Rightarrow> int \<Rightarrow> int \<Rightarrow> int \<Rightarrow> CardToSort" where
  "sortable r y m d =
     \<lparr>CardToSort_name = rc_name r, CardToSort_identifier = rc_id r,
      CardToSort_due = at_midnight y m d\<rparr>"

subsection \<open>Vocabulary of the calendar lemmas\<close>

text \<open>
  The last step of \<open>ord2ymd\<close>: the month and the day of the month of the day with
  offset \<open>n\<close> in its year.
\<close>

definition month_day_of :: "bool \<Rightarrow> int \<Rightarrow> int \<times> int" where
  "month_day_of leapyear n =
     (let m = (n + 50) div 32;
          preceding = DAYS_BEFORE_MONTH ! nat m + (if m > 2 \<and> leapyear then 1 else 0)
      in if preceding > n
         then (m - 1,
               n - (preceding - (DAYS_IN_MONTH ! nat (m - 1)
                                 + (if m - 1 = 2 \<and> leapyear then 1 else 0))) + 1)
         else (m, n - preceding + 1))"

definition month_day_ok :: "bool \<Rightarrow> int \<Rightarrow> bool" where
  "month_day_ok leapyear n =
     (case month_day_of leapyear n of
        (m, d) \<Rightarrow>
          1 \<le> m \<and> m \<le> 12 \<and> 1 \<le> d
          \<and> d \<le> DAYS_IN_MONTH ! nat m + (if m = 2 \<and> leapyear then 1 else 0)
          \<and> DAYS_BEFORE_MONTH ! nat m + (if m > 2 \<and> leapyear then 1 else 0) + d = n + 1)"

subsection \<open>Vocabulary of the advancer\<close>


definition add_period :: "string \<Rightarrow> int \<Rightarrow> datetime \<Rightarrow> error + datetime" where
  "add_period period_type period_len due =
     (case relativedelta_kw period_type period_len of
        Inl e \<Rightarrow> Inl e
      | Inr delta \<Rightarrow> rd_add delta due)"

fun add_periods :: "nat \<Rightarrow> string \<Rightarrow> int \<Rightarrow> datetime \<Rightarrow> error + datetime" where
  "add_periods 0 period_type period_len due = Inr due"
| "add_periods (Suc k) period_type period_len due =
     (case add_periods k period_type period_len due of
        Inl e \<Rightarrow> Inl e
      | Inr d \<Rightarrow> add_period period_type period_len d)"







text \<open>The parameters of the constructor of \<^verbatim>\<open>relativedelta\<close>.\<close>

definition relativedelta_keys :: "string list" where
  "relativedelta_keys =
     [''dt1'', ''dt2'', ''years'', ''months'', ''days'', ''leapdays'', ''weeks'', ''hours'',
      ''minutes'', ''seconds'', ''microseconds'', ''year'', ''month'', ''day'', ''weekday'',
      ''yearday'', ''nlyearday'', ''hour'', ''minute'', ''second'', ''microsecond'']"

subsection \<open>More example inputs\<close>

definition task_zero :: raw_card where
  "task_zero =
     \<lparr>rc_name = ''stretch'', rc_id = ''c6'', rc_due = Some ''2023-01-01T00:00:00.000Z'',
      rc_desc = ''0 days'', rc_labels = [regular_label]\<rparr>"

definition week_lists :: "BoardList list" where
  "week_lists =
     [\<lparr>List_name = Monday, List_identifier = ''L1''\<rparr>,
      \<lparr>List_name = Tuesday, List_identifier = ''L2''\<rparr>,
      \<lparr>List_name = Wednesday, List_identifier = ''L3''\<rparr>,
      \<lparr>List_name = Thursday, List_identifier = ''L4''\<rparr>,
      \<lparr>List_name = Friday, List_identifier = ''L5''\<rparr>,
      \<lparr>List_name = Saturday, List_identifier = ''L6''\<rparr>,
      \<lparr>List_name = Sunday, List_identifier = ''L7''\<rparr>]"

definition card_weekly :: Card where
  "card_weekly = make_card task_weekly (at_midnight 2023 1 1) (1, ''weeks'')"

definition start_state :: "unit run" where
  "start_state = \<lparr>world = (), trace = []\<rparr>"

section \<open>Properties of the task filter\<close>

declare advance.simps [code]

lemma dt_ge_iff: "dt_ge a b = (\<not> dt_less a b)"
  by (auto simp: dt_ge_def dt_less_def)

text \<open>The log has no influence on the result of the filter.\<close>

lemma filter_loop_log_irrelevant:
  "snd (filter_loop now rs acc per lg) = snd (filter_loop now rs acc per lg')"
proof (induction rs arbitrary: acc per lg lg')
  case Nil
  show ?case by simp
next
  case (Cons r rs)
  show ?case
    apply (simp add: Let_def split: sum.splits option.splits prod.splits)
    using Cons.IH apply -
    apply (intro conjI impI allI)
    apply blast+
    done
qed

text \<open>The three ways through one iteration of the loop.\<close>

lemma filter_loop_skip:
  assumes "\<not> eligible now r"
  shows "snd (filter_loop now (r # rs) acc per lg) = snd (filter_loop now rs acc per lg)"
  using assms filter_loop_log_irrelevant [of now rs acc per _ lg]
  by (auto simp: eligible_def past_due_def dt_ge_iff Let_def split: sum.splits)

lemma filter_loop_unbound:
  assumes "eligible now r" and "rebind now per r = None"
  shows "snd (filter_loop now (r # rs) acc per lg) = Inl NameError"
  using assms
  by (auto simp: eligible_def past_due_def rebind_def parsed_period_def dt_ge_iff Let_def
           split: sum.splits option.splits)

lemma filter_loop_append:
  assumes "eligible now r" and "rebind now per r = Some p" and "strptime (rc_due r) = Inr due"
  shows "snd (filter_loop now (r # rs) acc per lg)
       = snd (filter_loop now rs (acc @ [make_card r due p]) (Some p) lg)"
  using assms filter_loop_log_irrelevant [of now rs _ _ _ lg]
  by (auto simp: eligible_def past_due_def rebind_def parsed_period_def dt_ge_iff Let_def
                 make_card_def
           split: sum.splits option.splits)

lemma eligible_due:
  "eligible now r \<Longrightarrow> \<exists>due. strptime (rc_due r) = Inr due \<and> dt_less due now"
  by (auto simp: eligible_def past_due_def split: sum.splits)

lemma filter_loop_cases:
  obtains (skip) "\<not> eligible now r"
      "snd (filter_loop now (r # rs) acc per lg) = snd (filter_loop now rs acc per lg)"
  | (unbound) "eligible now r" "rebind now per r = None"
      "snd (filter_loop now (r # rs) acc per lg) = Inl NameError"
  | (append) due p where "eligible now r" "rebind now per r = Some p"
      "strptime (rc_due r) = Inr due" "dt_less due now"
      "snd (filter_loop now (r # rs) acc per lg)
       = snd (filter_loop now rs (acc @ [make_card r due p]) (Some p) lg)"
proof (cases "eligible now r")
  case False
  then show ?thesis using skip filter_loop_skip by blast
next
  case True
  then obtain due where d: "strptime (rc_due r) = Inr due" "dt_less due now"
    using eligible_due by blast
  show ?thesis
  proof (cases "rebind now per r")
    case None
    then show ?thesis using unbound True filter_loop_unbound by blast
  next
    case (Some p)
    then show ?thesis using append True d filter_loop_append by blast
  qed
qed

declare filter_loop.simps(2) [simp del]


text \<open>What a returning loop has appended: the eligible tasks, in their order.\<close>

lemma filter_loop_result:
  "snd (filter_loop now rs acc per lg) = Inr out \<Longrightarrow>
   \<exists>new. out = acc @ new \<and> map ckey new = map rkey (filter (eligible now) rs)
        \<and> (\<forall>c \<in> set new. dt_less (Card_due c) now)"
proof (induction rs arbitrary: acc per)
  case Nil
  then show ?case by simp
next
  case (Cons r rs)
  show ?case
  proof (cases rule: filter_loop_cases [of now r rs acc per lg])
    case skip
    then show ?thesis using Cons by simp
  next
    case unbound
    then show ?thesis using Cons.prems by simp
  next
    case (append due p)
    from Cons.IH [of "acc @ [make_card r due p]" "Some p"] append(5) Cons.prems
    obtain new where n: "out = (acc @ [make_card r due p]) @ new"
      "map ckey new = map rkey (filter (eligible now) rs)"
      "\<forall>c \<in> set new. dt_less (Card_due c) now"
      by auto
    have "ckey (make_card r due p) = rkey r"
      using append(3) by (simp add: ckey_def rkey_def make_card_def)
    then show ?thesis using n append(1,4)
      by (intro exI [of _ "make_card r due p # new"]) (simp add: make_card_def)
  qed
qed

text \<open>Once the two locals are bound, the loop returns.\<close>

lemma filter_loop_bound_returns:
  "per \<noteq> None \<Longrightarrow> \<exists>out. snd (filter_loop now rs acc per lg) = Inr out"
proof (induction rs arbitrary: acc per)
  case Nil
  then show ?case by simp
next
  case (Cons r rs)
  show ?case
  proof (cases rule: filter_loop_cases [of now r rs acc per lg])
    case skip
    then show ?thesis using Cons by simp
  next
    case unbound
    then show ?thesis using Cons.prems
      by (auto simp: rebind_def split: option.splits if_splits)
  next
    case (append due p)
    then show ?thesis using Cons.IH [of "Some p"] by simp
  qed
qed







text \<open>
  C2. Whenever the filter returns, every task of its output has a due date before
  \<^verbatim>\<open>current_time\<close> and comes from a record of the input that carries a label named
  exactly \<^verbatim>\<open>Regular\<close>; and the output lists, in the order of the input and without
  repetition or omission, the records that carry the label and are past due.
\<close>

theorem filter_exactness:
  assumes "snd (filter_out_cards now cards) = Inr out"
  shows "(\<forall>c \<in> set out. dt_less (Card_due c) now \<and> \<not> dt_ge (Card_due c) now)
       \<and> (\<forall>c \<in> set out. \<exists>r \<in> set cards.
             rc_name r = Card_name c \<and> rc_id r = Card_identifier c
             \<and> strptime (rc_due r) = Inr (Card_due c)
             \<and> (\<exists>lb \<in> set (rc_labels r). lb_name lb = Some ''Regular''))
       \<and> map ckey out = map rkey (filter (eligible now) cards)"
proof -
  from assms filter_loop_result [of now cards "[]" None "[]" out]
  have m: "map ckey out = map rkey (filter (eligible now) cards)"
    and d: "\<forall>c \<in> set out. dt_less (Card_due c) now"
    by (auto simp: filter_out_cards_def)
  have "\<exists>r \<in> set cards. rc_name r = Card_name c \<and> rc_id r = Card_identifier c
             \<and> strptime (rc_due r) = Inr (Card_due c)
             \<and> (\<exists>lb \<in> set (rc_labels r). lb_name lb = Some ''Regular'')"
    if "c \<in> set out" for c
  proof -
    from that have "ckey c \<in> set (map rkey (filter (eligible now) cards))"
      using m by (metis image_eqI set_map)
    then obtain r where r: "r \<in> set cards" "eligible now r" "ckey c = rkey r"
      by auto
    from r(2) obtain lb where "lb \<in> set (rc_labels r)"
      "(case lb_name lb of None \<Rightarrow> [] | Some n \<Rightarrow> n) = ''Regular''"
      by (auto simp: eligible_def is_regular_def list_ex_iff)
    then have "\<exists>lb \<in> set (rc_labels r). lb_name lb = Some ''Regular''"
      by (cases "lb_name lb") auto
    with r show ?thesis by (auto simp: ckey_def rkey_def)
  qed
  with m d show ?thesis by (simp add: dt_ge_iff)
qed

theorem filter_exactness_witness:
  "snd (filter_out_cards now0
          [task_unlabelled, task_weekly, task_future, task_no_due, task_no_rule])
     = Inr [make_card task_weekly (at_midnight 2023 1 1) (1, ''weeks''),
            make_card task_no_rule (at_midnight 2023 1 5) (1, ''weeks'')]
   \<and> map ckey [make_card task_weekly (at_midnight 2023 1 1) (1, ''weeks''),
                make_card task_no_rule (at_midnight 2023 1 5) (1, ''weeks'')]
     = map rkey (filter (eligible now0)
          [task_unlabelled, task_weekly, task_future, task_no_due, task_no_rule])"
proof -
  have h: "snd (filter_out_cards now0
          [task_unlabelled, task_weekly, task_future, task_no_due, task_no_rule])
     = Inr [make_card task_weekly (at_midnight 2023 1 1) (1, ''weeks''),
            make_card task_no_rule (at_midnight 2023 1 5) (1, ''weeks'')]"
    by code_simp
  show ?thesis using h filter_exactness [OF h] by blast
qed




section \<open>Properties of the pipeline\<close>

lemma puts_append: "puts (a @ b) = puts a @ puts b"
  by (induction a rule: puts.induct) simp_all

lemma puts_logger: "puts (trace (logger lv m st)) = puts (trace st)"
  by (simp add: logger_def puts_append)

lemma world_logger: "world (logger lv m st) = world st"
  by (simp add: logger_def)






text \<open>
  C7. When the request for the lists raises, \<^verbatim>\<open>get_lists\<close> returns no list, and the
  run returns without an exception after the two loops over no list: its trace is the
  failed request and three log lines, with no request for cards and no \<^verbatim>\<open>PUT\<close>.
\<close>

theorem degrade_to_empty:
  assumes "fst (Requester_get_lists requester w) = Inl e"
  shows "fst (get_lists requester \<lparr>world = w, trace = []\<rparr>) = []
       \<and> main requester now w =
           Some (None, \<lparr>world = snd (Requester_get_lists requester w),
                        trace = [GetLists, Log CRITICAL Cant_get_lists,
                                 Log INFO Started_to_update, Log INFO Start_to_sort]\<rparr>)
       \<and> puts [GetLists, Log CRITICAL Cant_get_lists,
                Log INFO Started_to_update, Log INFO Start_to_sort] = []"
  using assms
  by (cases "Requester_get_lists requester w")
     (simp add: main_def get_lists_def logger_def)

theorem degrade_to_empty_witness:
  "main unreachable_board now0 () =
     Some (None, \<lparr>world = (), trace = [GetLists, Log CRITICAL Cant_get_lists,
                                       Log INFO Started_to_update, Log INFO Start_to_sort]\<rparr>)"
proof -
  have h: "fst (Requester_get_lists unreachable_board ()) = Inl RequestError"
    by (simp add: unreachable_board_def)
  show ?thesis using degrade_to_empty [OF h, of now0] by (simp add: unreachable_board_def)
qed

text \<open>The requests of the loop that puts the cards of a list in order.\<close>

lemma puts_set_card_order:
  "puts (trace (set_card_order requester c st))
     = puts (trace st) @ [PosBottom (CardToSort_identifier c)]"
  by (simp add: set_card_order_def trello_put_def puts_append puts_logger
           split: prod.splits option.splits)

lemma puts_set_cards_order:
  "puts (trace (set_cards_order requester cs st))
     = puts (trace st) @ map (\<lambda>c. PosBottom (CardToSort_identifier c)) cs"
  by (induction cs arbitrary: st) (simp_all add: puts_set_card_order)

lemma dt_tuple_inj: "dt_tuple a = dt_tuple b \<longleftrightarrow> a = b"
  by (cases a, cases b) (auto simp: dt_tuple_def)

text \<open>
  C8. \<^verbatim>\<open>sort_cards\<close> returns the cards in ascending order of their due dates, it
  returns the same cards, and cards with one and the same due date keep their order; the
  loop over the sorted cards sends one \<^verbatim>\<open>pos=bottom\<close> request for each card, in that
  order, whether or not a request fails.
\<close>

theorem list_orderer:
  "sorted_wrt (\<lambda>a b. dt_ge (CardToSort_due b) (CardToSort_due a)) (sort_cards cards)
   \<and> mset (sort_cards cards) = mset cards
   \<and> filter (\<lambda>c. CardToSort_due c = d) (sort_cards cards)
       = filter (\<lambda>c. CardToSort_due c = d) cards
   \<and> puts (trace (set_cards_order requester (sort_cards cards) st))
       = puts (trace st) @ map (\<lambda>c. PosBottom (CardToSort_identifier c)) (sort_cards cards)"
proof -
  have "sorted (map (\<lambda>x. dt_tuple (CardToSort_due x)) (sort_cards cards))"
    by (simp add: sort_cards_def)
  then have a: "sorted_wrt (\<lambda>a b. dt_ge (CardToSort_due b) (CardToSort_due a)) (sort_cards cards)"
    by (simp add: sorted_map dt_ge_def)
  have b: "mset (sort_cards cards) = mset cards"
    by (simp add: sort_cards_def)
  have "filter (\<lambda>c. dt_tuple (CardToSort_due c) = dt_tuple d) (sort_cards cards)
      = filter (\<lambda>c. dt_tuple (CardToSort_due c) = dt_tuple d) cards"
    unfolding sort_cards_def by (rule sort_key_stable)
  then have c: "filter (\<lambda>c. CardToSort_due c = d) (sort_cards cards)
       = filter (\<lambda>c. CardToSort_due c = d) cards"
    by (simp add: dt_tuple_inj)
  show ?thesis using a b c puts_set_cards_order by blast
qed

theorem list_orderer_witness:
  "construct_cards_to_order [task_feb10, task_feb05]
     = Inr [sortable task_feb10 2023 2 10, sortable task_feb05 2023 2 5]
   \<and> sort_cards [sortable task_feb10 2023 2 10, sortable task_feb05 2023 2 5]
     = [sortable task_feb05 2023 2 5, sortable task_feb10 2023 2 10]
   \<and> puts (trace (set_cards_order (fixed_board [])
        (sort_cards [sortable task_feb10 2023 2 10, sortable task_feb05 2023 2 5])
        \<lparr>world = (), trace = []\<rparr>))
     = [PosBottom ''c05'', PosBottom ''c10'']"
proof -
  have a: "construct_cards_to_order [task_feb10, task_feb05]
     = Inr [sortable task_feb10 2023 2 10, sortable task_feb05 2023 2 5]"
    by code_simp
  have b: "sort_cards [sortable task_feb10 2023 2 10, sortable task_feb05 2023 2 5]
     = [sortable task_feb05 2023 2 5, sortable task_feb10 2023 2 10]"
    by code_simp
  have c: "map (\<lambda>c. PosBottom (CardToSort_identifier c))
             [sortable task_feb05 2023 2 5, sortable task_feb10 2023 2 10]
           = [PosBottom ''c05'', PosBottom ''c10'']"
    by code_simp
  show ?thesis
    using a b c
      list_orderer [of "[sortable task_feb10 2023 2 10, sortable task_feb05 2023 2 5]"
                       "at_midnight 2023 2 5" "fixed_board []" "\<lparr>world = (), trace = []\<rparr>"]
    by simp
qed

text \<open>A card whose due date does not parse makes the construction of the list raise.\<close>

lemma construct_cards_to_order_raises:
  "r \<in> set cards \<Longrightarrow> strptime (rc_due r) = Inl e \<Longrightarrow>
   \<exists>e'. construct_cards_to_order cards = Inl e'"
  by (induction cards) (auto split: sum.splits)

text \<open>
  C5, at a list of two cards, one with a due date in the future and one without a due
  date. The first loop skips both. In the second loop the construction of the cards to
  order raises \<^verbatim>\<open>TypeError\<close>, which leaves \<^verbatim>\<open>main\<close>: no card of the list is put in
  order.
\<close>

theorem reorder_aborts_without_due:
  "construct_cards_to_order [task_future, task_no_due] = Inl TypeError
   \<and> main (fixed_board [task_future, task_no_due]) now0 () =
       Some (Some TypeError,
         \<lparr>world = (),
          trace = [GetLists, Log INFO Received_lists, Log ERROR Not_all_necessary_lists,
                   Log INFO Started_to_update, Log INFO Start_to_process_list,
                   GetCards ''L1'', Log INFO Cards_found, Log INFO Check_card,
                   Log INFO Filtered_due_date, Log INFO Check_card,
                   Log INFO Filtered_not_regular, Log INFO Start_to_sort,
                   Log INFO Start_to_process_list, GetCards ''L1'',
                   Log INFO Cards_found]\<rparr>)"
  by code_simp

section \<open>Facts of the calendar\<close>

text \<open>The number of days before a year.\<close>

lemma div_succ_int:
  fixes x k :: int
  assumes "0 < k"
  shows "(x + 1) div k = x div k + (if (x + 1) mod k = 0 then 1 else 0)"
proof -
  define q where "q = x div k"
  define r where "r = x mod k"
  have x: "x = k * q + r" and r: "0 \<le> r" "r < k"
    using assms by (simp_all add: q_def r_def)
  show ?thesis
  proof (cases "r + 1 = k")
    case True
    have e: "x + 1 = k * (q + 1) + 0" using x True by (simp add: algebra_simps)
    have "(x + 1) div k = q + 1"
      by (rule int_div_pos_eq [OF e]) (use assms in simp_all)
    moreover have "(x + 1) mod k = 0"
      by (rule int_mod_pos_eq [OF e]) (use assms in simp_all)
    ultimately show ?thesis by (simp add: q_def)
  next
    case False
    have e: "x + 1 = k * q + (r + 1)" using x by simp
    have b: "0 \<le> r + 1" "r + 1 < k" using r False by simp_all
    have "(x + 1) div k = q" by (rule int_div_pos_eq [OF e b])
    moreover have "(x + 1) mod k = r + 1" by (rule int_mod_pos_eq [OF e b])
    ultimately show ?thesis using r by (simp add: q_def)
  qed
qed

lemma mod_coarser:
  fixes y :: int
  assumes "a dvd b" and "y mod b = 0"
  shows "y mod a = 0"
  using assms by (meson dvd_trans mod_eq_0_iff_dvd)

lemma leap_sum:
  fixes y A B C A' B' C' p q r :: int
  assumes "A' = A + p" "B' = B + q" "C' = C + r"
  shows "y * 365 + A' - B' + C' = ((y - 1) * 365 + A - B + C) + (365 + p - q + r)"
  using assms by (simp add: algebra_simps)

lemma days_before_year_Suc:
  "days_before_year (y + 1) = days_before_year y + (if isleap y then 366 else 365)"
proof -
  define p where "p = (if y mod 4 = 0 then 1 else 0 :: int)"
  define q where "q = (if y mod 100 = 0 then 1 else 0 :: int)"
  define r where "r = (if y mod 400 = 0 then 1 else 0 :: int)"
  have a: "y div 4 = (y - 1) div 4 + p"
    using div_succ_int [of 4 "y - 1"] by (simp add: p_def)
  have b: "y div 100 = (y - 1) div 100 + q"
    using div_succ_int [of 100 "y - 1"] by (simp add: q_def)
  have c: "y div 400 = (y - 1) div 400 + r"
    using div_succ_int [of 400 "y - 1"] by (simp add: r_def)
  have d1: "y mod 400 = 0 \<Longrightarrow> y mod 100 = 0"
    by (rule mod_coarser [of 100 400]) simp_all
  have d2: "y mod 100 = 0 \<Longrightarrow> y mod 4 = 0"
    by (rule mod_coarser [of 4 100]) simp_all
  have e: "days_before_year (y + 1) = y * 365 + y div 4 - y div 100 + y div 400"
    by (simp add: days_before_year_def)
  have e0: "days_before_year y = (y - 1) * 365 + (y - 1) div 4 - (y - 1) div 100 + (y - 1) div 400"
    by (simp add: days_before_year_def)
  have f: "days_before_year (y + 1) = days_before_year y + (365 + p - q + r)"
    by (simp only: e e0 leap_sum [OF a b c])
  have g: "365 + p - q + r = (if isleap y then 366 else 365)"
  proof (cases "y mod 4 = 0")
    case False
    then show ?thesis using d1 d2 by (auto simp: p_def q_def r_def isleap_def)
  next
    case True
    show ?thesis
    proof (cases "y mod 100 = 0")
      case False
      then show ?thesis using True d1 by (auto simp: p_def q_def r_def isleap_def)
    next
      case h: True
      show ?thesis using True h by (cases "y mod 400 = 0") (simp_all add: p_def q_def r_def isleap_def)
    qed
  qed
  show ?thesis using f g by simp
qed

lemma days_before_year_step: "days_before_year y < days_before_year (y + 1)"
  by (simp add: days_before_year_Suc)

lemma days_before_year_mono_nat: "days_before_year y \<le> days_before_year (y + int k)"
proof (induction k)
  case 0
  show ?case by simp
next
  case (Suc k)
  have "days_before_year (y + int k) \<le> days_before_year (y + int k + 1)"
    using days_before_year_step [of "y + int k"] by simp
  then show ?case using Suc by (simp add: algebra_simps)
qed

lemma days_before_year_mono: "y \<le> y' \<Longrightarrow> days_before_year y \<le> days_before_year y'"
  using days_before_year_mono_nat [of y "nat (y' - y)"] by simp

lemma days_before_year_strict: "y < y' \<Longrightarrow> days_before_year (y + 1) \<le> days_before_year y'"
  by (rule days_before_year_mono) simp

text \<open>The months of a year.\<close>

lemma month_cases:
  fixes m :: int
  assumes "1 \<le> m" "m \<le> 12"
  obtains "m = 1" | "m = 2" | "m = 3" | "m = 4" | "m = 5" | "m = 6"
        | "m = 7" | "m = 8" | "m = 9" | "m = 10" | "m = 11" | "m = 12"
proof -
  have "m = 1 \<or> m = 2 \<or> m = 3 \<or> m = 4 \<or> m = 5 \<or> m = 6
      \<or> m = 7 \<or> m = 8 \<or> m = 9 \<or> m = 10 \<or> m = 11 \<or> m = 12"
    using assms by presburger
  then show thesis using that by blast
qed

lemma days_in_month_bounds:
  assumes "1 \<le> m" "m \<le> 12"
  shows "28 \<le> days_in_month y m" "days_in_month y m \<le> 31"
  by (rule month_cases [OF assms]; simp add: days_in_month_def DAYS_IN_MONTH_def)+

lemma days_before_month_Suc:
  assumes "1 \<le> m" "m \<le> 11"
  shows "days_before_month y (m + 1) = days_before_month y m + days_in_month y m"
proof -
  have "m \<le> 12" using assms by simp
  from assms(1) this show ?thesis
    by (rule month_cases)
       (use assms(2) in \<open>simp_all add: days_before_month_def days_in_month_def
          DAYS_BEFORE_MONTH_def DAYS_IN_MONTH_def\<close>)
qed

lemma days_before_month_end:
  "days_before_month y 12 + days_in_month y 12 = (if isleap y then 366 else 365)"
  by (simp add: days_before_month_def days_in_month_def DAYS_BEFORE_MONTH_def
        DAYS_IN_MONTH_def)

lemma days_before_month_first: "days_before_month y 1 = 0"
  by (simp add: days_before_month_def DAYS_BEFORE_MONTH_def)

lemma days_before_month_mono_nat:
  "1 \<le> m \<Longrightarrow> m + int k \<le> 12 \<Longrightarrow> days_before_month y m \<le> days_before_month y (m + int k)"
proof (induction k)
  case 0
  show ?case by simp
next
  case (Suc k)
  have "days_before_month y (m + int k + 1)
      = days_before_month y (m + int k) + days_in_month y (m + int k)"
    using Suc.prems by (intro days_before_month_Suc) simp_all
  moreover have "28 \<le> days_in_month y (m + int k)"
    using Suc.prems by (intro days_in_month_bounds) simp_all
  ultimately show ?case using Suc by (simp add: algebra_simps)
qed

lemma days_before_month_mono:
  "1 \<le> m \<Longrightarrow> m \<le> m' \<Longrightarrow> m' \<le> 12 \<Longrightarrow> days_before_month y m \<le> days_before_month y m'"
  using days_before_month_mono_nat [of m "nat (m' - m)" y] by simp

lemma days_before_month_next:
  assumes "1 \<le> m" "m < m'" "m' \<le> 12"
  shows "days_before_month y m + days_in_month y m \<le> days_before_month y m'"
proof -
  have "days_before_month y (m + 1) = days_before_month y m + days_in_month y m"
    using assms by (intro days_before_month_Suc) simp_all
  moreover have "days_before_month y (m + 1) \<le> days_before_month y m'"
    using assms by (intro days_before_month_mono) simp_all
  ultimately show ?thesis by simp
qed

lemma day_of_year_bounds:
  assumes "valid_date y m d"
  shows "1 \<le> days_before_month y m + d"
    and "days_before_month y m + d \<le> (if isleap y then 366 else 365)"
proof -
  have m: "1 \<le> m" "m \<le> 12" and d: "1 \<le> d" "d \<le> days_in_month y m"
    using assms by (simp_all add: valid_date_def)
  have "days_before_month y 1 \<le> days_before_month y m"
    using m by (intro days_before_month_mono) simp_all
  then show "1 \<le> days_before_month y m + d"
    using d by (simp add: days_before_month_first)
  have "days_before_month y m + days_in_month y m
      \<le> days_before_month y 12 + days_in_month y 12"
  proof (cases "m = 12")
    case True
    then show ?thesis by simp
  next
    case False
    then have "days_before_month y m + days_in_month y m \<le> days_before_month y 12"
      using m by (intro days_before_month_next) simp_all
    moreover have "28 \<le> days_in_month y 12" by (intro days_in_month_bounds) simp_all
    ultimately show ?thesis by simp
  qed
  then show "days_before_month y m + d \<le> (if isleap y then 366 else 365)"
    using d days_before_month_end [of y] by (simp split: if_splits)
qed

text \<open>The ordinal grows with the date.\<close>

lemma ymd2ord_less:
  assumes "valid_date y m d" and "valid_date y' m' d'"
    and "(y, m, d) < (y', m', d')"
  shows "ymd2ord y m d < ymd2ord y' m' d'"
proof -
  have m: "1 \<le> m" "m \<le> 12" and d: "1 \<le> d" "d \<le> days_in_month y m"
    using assms(1) by (simp_all add: valid_date_def)
  have m': "1 \<le> m'" "m' \<le> 12" and d': "1 \<le> d'" "d' \<le> days_in_month y' m'"
    using assms(2) by (simp_all add: valid_date_def)
  have "y < y' \<or> (y = y' \<and> m < m') \<or> (y = y' \<and> m = m' \<and> d < d')"
    using assms(3) by (auto simp: order.order_iff_strict)
  then consider "y < y'" | "y = y'" "m < m'" | "y = y'" "m = m'" "d < d'"
    by blast
  then show ?thesis
  proof cases
    case 1
    have "ymd2ord y m d \<le> days_before_year (y + 1)"
      using day_of_year_bounds(2) [OF assms(1)] days_before_year_Suc [of y]
      by (simp add: ymd2ord_def split: if_splits)
    also have "\<dots> \<le> days_before_year y'"
      using 1 by (rule days_before_year_strict)
    also have "\<dots> < ymd2ord y' m' d'"
      using day_of_year_bounds(1) [OF assms(2)] by (simp add: ymd2ord_def)
    finally show ?thesis .
  next
    case 2
    have "days_before_month y m + d \<le> days_before_month y m + days_in_month y m"
      using d by simp
    also have "\<dots> \<le> days_before_month y m'"
      using m 2 m' by (intro days_before_month_next) simp_all
    finally show ?thesis using 2 d' by (simp add: ymd2ord_def)
  next
    case 3
    then show ?thesis by (simp add: ymd2ord_def)
  qed
qed

lemma days_before_year_1: "days_before_year 1 = 0"
  by (simp add: days_before_year_def)

lemma days_before_year_10000: "days_before_year 10000 = 3652059"
  by (simp add: days_before_year_def)

lemma ymd2ord_bounds:
  assumes "valid_date y m d"
  shows "1 \<le> ymd2ord y m d" and "ymd2ord y m d \<le> MAXORDINAL"
proof -
  have y: "1 \<le> y" "y \<le> 9999" using assms by (simp_all add: valid_date_def MINYEAR_def MAXYEAR_def)
  have "days_before_year 1 \<le> days_before_year y"
    using y by (intro days_before_year_mono) simp
  then show "1 \<le> ymd2ord y m d"
    using day_of_year_bounds(1) [OF assms] by (simp add: ymd2ord_def days_before_year_1)
  have "ymd2ord y m d \<le> days_before_year (y + 1)"
    using day_of_year_bounds(2) [OF assms] days_before_year_Suc [of y]
    by (simp add: ymd2ord_def split: if_splits)
  also have "\<dots> \<le> days_before_year 10000"
    using y by (intro days_before_year_mono) simp
  finally show "ymd2ord y m d \<le> MAXORDINAL"
    by (simp add: days_before_year_10000 MAXORDINAL_def)
qed

text \<open>The year of an ordinal.\<close>

lemma year_decomp:
  fixes a b c e :: int
  assumes "0 \<le> b" "b \<le> 3" "0 \<le> c" "c \<le> 24" "0 \<le> e" "e \<le> 3"
  shows "days_before_year (400 * a + 100 * b + 4 * c + e + 1)
           = 146097 * a + 36524 * b + 1461 * c + 365 * e"
    and "isleap (400 * a + 100 * b + 4 * c + e + 1) \<longleftrightarrow> e = 3 \<and> (c \<noteq> 24 \<or> b = 3)"
proof -
  define Y where "Y = 400 * a + 100 * b + 4 * c + e"
  have d4: "Y div 4 = 100 * a + 25 * b + c"
    by (rule int_div_pos_eq [of _ _ _ e]) (use assms in \<open>simp_all add: Y_def\<close>)
  have d100: "Y div 100 = 4 * a + b"
    by (rule int_div_pos_eq [of _ _ _ "4 * c + e"]) (use assms in \<open>simp_all add: Y_def\<close>)
  have d400: "Y div 400 = a"
    by (rule int_div_pos_eq [of _ _ _ "100 * b + 4 * c + e"])
       (use assms in \<open>simp_all add: Y_def\<close>)
  have "days_before_year (Y + 1) = Y * 365 + Y div 4 - Y div 100 + Y div 400"
    by (simp add: days_before_year_def)
  also have "\<dots> = 146097 * a + 36524 * b + 1461 * c + 365 * e"
    unfolding d4 d100 d400 by (simp add: Y_def)
  finally show "days_before_year (400 * a + 100 * b + 4 * c + e + 1)
           = 146097 * a + 36524 * b + 1461 * c + 365 * e"
    by (simp add: Y_def)
  have m4: "(Y + 1) mod 4 = (if e = 3 then 0 else e + 1)"
  proof (cases "e = 3")
    case True
    have "(Y + 1) mod 4 = 0"
      by (rule int_mod_pos_eq [of _ _ "100 * a + 25 * b + c + 1"])
         (use True in \<open>simp_all add: Y_def\<close>)
    then show ?thesis using True by simp
  next
    case False
    have "(Y + 1) mod 4 = e + 1"
      by (rule int_mod_pos_eq [of _ _ "100 * a + 25 * b + c"])
         (use False assms in \<open>simp_all add: Y_def\<close>)
    then show ?thesis using False by simp
  qed
  have m100: "(Y + 1) mod 100 = (if c = 24 \<and> e = 3 then 0 else 4 * c + e + 1)"
  proof (cases "c = 24 \<and> e = 3")
    case True
    have "(Y + 1) mod 100 = 0"
      by (rule int_mod_pos_eq [of _ _ "4 * a + b + 1"])
         (use True in \<open>simp_all add: Y_def\<close>)
    then show ?thesis using True by simp
  next
    case False
    then have "4 * c + e + 1 < 100" using assms by linarith
    then have "(Y + 1) mod 100 = 4 * c + e + 1"
      by (intro int_mod_pos_eq [of _ _ "4 * a + b"])
         (use assms in \<open>simp_all add: Y_def\<close>)
    then show ?thesis using False by simp
  qed
  have m400: "(Y + 1) mod 400 = (if b = 3 \<and> c = 24 \<and> e = 3 then 0 else 100 * b + 4 * c + e + 1)"
  proof (cases "b = 3 \<and> c = 24 \<and> e = 3")
    case True
    have "(Y + 1) mod 400 = 0"
      by (rule int_mod_pos_eq [of _ _ "a + 1"])
         (use True in \<open>simp_all add: Y_def\<close>)
    then show ?thesis using True by simp
  next
    case False
    then have "100 * b + 4 * c + e + 1 < 400" using assms by linarith
    then have "(Y + 1) mod 400 = 100 * b + 4 * c + e + 1"
      by (intro int_mod_pos_eq [of _ _ a])
         (use assms in \<open>simp_all add: Y_def\<close>)
    then show ?thesis using False by simp
  qed
  have "isleap (Y + 1) \<longleftrightarrow> e = 3 \<and> (c \<noteq> 24 \<or> b = 3)"
    unfolding isleap_def m4 m100 m400 using assms by auto
  then show "isleap (400 * a + 100 * b + 4 * c + e + 1) \<longleftrightarrow> e = 3 \<and> (c \<noteq> 24 \<or> b = 3)"
    by (simp add: Y_def)
qed

text \<open>The month and the day of an offset in the year, checked for each offset.\<close>

lemma month_day_ok:
  assumes "0 \<le> n" "n < 365"
  shows "month_day_ok leap n"
proof -
  define M where "M = (n + 50) div 32"
  define r where "r = (n + 50) mod 32"
  have e: "n + 50 = 32 * M + r" and r: "0 \<le> r" "r < 32"
    by (simp_all add: M_def r_def)
  have M: "1 \<le> M" "M \<le> 12" using e r assms by linarith+
  have md: "month_day_of leap n =
     (if DAYS_BEFORE_MONTH ! nat M + (if M > 2 \<and> leap then 1 else 0) > n
      then (M - 1,
            n - (DAYS_BEFORE_MONTH ! nat M + (if M > 2 \<and> leap then 1 else 0)
                 - (DAYS_IN_MONTH ! nat (M - 1) + (if M - 1 = 2 \<and> leap then 1 else 0))) + 1)
      else (M, n - (DAYS_BEFORE_MONTH ! nat M + (if M > 2 \<and> leap then 1 else 0)) + 1))"
    unfolding month_day_of_def Let_def M_def by (rule refl)
  have n: "32 * M - 50 \<le> n" "n \<le> 32 * M - 19" using e r by linarith+
  from M show ?thesis
    unfolding month_day_ok_def md
    by (rule month_cases)
       (use n assms in \<open>auto simp: DAYS_BEFORE_MONTH_def DAYS_IN_MONTH_def\<close>)
qed

lemma days_in_month_alt:
  "days_in_month y m = DAYS_IN_MONTH ! nat m + (if m = 2 \<and> isleap y then 1 else 0)"
  by (simp add: days_in_month_def DAYS_IN_MONTH_def)

lemma divmod_facts:
  fixes x k :: int
  assumes "0 < k" "0 \<le> x"
  shows "x = k * (x div k) + x mod k" "0 \<le> x mod k" "x mod k < k" "0 \<le> x div k"
  using assms by (simp_all add: pos_imp_zdiv_nonneg_iff)

lemma ord2ymd_correct:
  assumes "1 \<le> n0" and "ord2ymd n0 = (y, m, d)"
  shows "1 \<le> y \<and> 1 \<le> m \<and> m \<le> 12 \<and> 1 \<le> d \<and> d \<le> days_in_month y m \<and> ymd2ord y m d = n0"
proof -
  define n where "n = n0 - 1"
  define a where "a = n div 146097"
  define r1 where "r1 = n mod 146097"
  define b where "b = r1 div 36524"
  define r2 where "r2 = r1 mod 36524"
  define c where "c = r2 div 1461"
  define r3 where "r3 = r2 mod 1461"
  define e where "e = r3 div 365"
  define r4 where "r4 = r3 mod 365"
  have n: "0 \<le> n" "n0 = n + 1" using assms(1) by (simp_all add: n_def)
  have f1: "n = 146097 * a + r1" "0 \<le> r1" "r1 < 146097" "0 \<le> a"
    unfolding a_def r1_def using divmod_facts [of 146097 n] n(1) by simp_all
  have f2: "r1 = 36524 * b + r2" "0 \<le> r2" "r2 < 36524" "0 \<le> b"
    unfolding b_def r2_def using divmod_facts [of 36524 r1] f1(2) by simp_all
  have f3: "r2 = 1461 * c + r3" "0 \<le> r3" "r3 < 1461" "0 \<le> c"
    unfolding c_def r3_def using divmod_facts [of 1461 r2] f2(2) by simp_all
  have f4: "r3 = 365 * e + r4" "0 \<le> r4" "r4 < 365" "0 \<le> e"
    unfolding e_def r4_def using divmod_facts [of 365 r3] f3(2) by simp_all
  have b4: "b \<le> 4" using f1(3) f2(1,2) by linarith
  have c24: "c \<le> 24" using f2(3) f3(1,2) by linarith
  have e4: "e \<le> 4" using f3(3) f4(1,2) by linarith
  define leap where "leap = (e = 3 \<and> (c \<noteq> 24 \<or> b = 3))"
  define M where "M = (r4 + 50) div 32"
  define P where "P = DAYS_BEFORE_MONTH ! nat M + (if M > 2 \<and> leap then 1 else 0)"
  define D where "D = r4 - (P - (DAYS_IN_MONTH ! nat (M - 1)
                                  + (if M - 1 = 2 \<and> leap then 1 else 0))) + 1"
  define Y where "Y = a * 400 + 1 + b * 100 + c * 4 + e"
  have res0: "ord2ymd n0 =
      (if e = 4 \<or> b = 4 then (Y - 1, 12, 31)
       else if P > r4 then (Y, M - 1, D) else (Y, M, r4 - P + 1))"
    unfolding ord2ymd_def Let_def Y_def D_def P_def M_def leap_def
      n_def a_def r1_def b_def r2_def c_def r3_def e_def r4_def
    by (rule refl)
  have md0: "month_day_of leap r4 = (if P > r4 then (M - 1, D) else (M, r4 - P + 1))"
    unfolding month_day_of_def Let_def D_def P_def M_def by (rule refl)
  have Y: "Y = 400 * a + 100 * b + 4 * c + e + 1" by (simp add: Y_def)
  have res1: "e = 4 \<or> b = 4 \<Longrightarrow> (y, m, d) = (Y - 1, 12, 31)"
    using assms(2) res0 by simp
  have res2: "\<not> (e = 4 \<or> b = 4) \<Longrightarrow> y = Y \<and> month_day_of leap r4 = (m, d)"
    using assms(2) res0 md0 by (cases "P > r4") simp_all
  show ?thesis
  proof (cases "b = 4")
    case True
    have z: "r2 = 0" "c = 0" "r3 = 0" "e = 0"
      using True f1(3) f2(1,2) f3(1,2,4) f4(1,2,4) by linarith+
    have y: "y = 400 * a + 100 * 3 + 4 * 24 + 3 + 1" "m = 12" "d = 31"
      using res1 True z Y by simp_all
    have l: "isleap y" unfolding y(1) by (subst year_decomp(2)) simp_all
    have "days_before_year y = 146097 * a + 36524 * 3 + 1461 * 24 + 365 * 3"
      unfolding y(1) by (rule year_decomp(1)) simp_all
    then have "ymd2ord y m d = n0"
      using l y(2,3) n(2) f1(1) f2(1) True z
      by (simp add: ymd2ord_def days_before_month_def DAYS_BEFORE_MONTH_def)
    moreover have "1 \<le> y" using y(1) f1(4) by simp
    ultimately show ?thesis using y(2,3) by (simp add: days_in_month_def DAYS_IN_MONTH_def)
  next
    case False
    then have b3: "b \<le> 3" using b4 by simp
    show ?thesis
    proof (cases "e = 4")
      case True
      have r40: "r4 = 0" using True f3(3) f4(1,2) by linarith
      have c23: "c \<le> 23" using True f2(3) f3(1) f4(1,2) c24 by linarith
      have y: "y = 400 * a + 100 * b + 4 * c + 3 + 1" "m = 12" "d = 31"
        using res1 True Y by simp_all
      have l: "isleap y" unfolding y(1)
        by (subst year_decomp(2)) (use b3 f2(4) f3(4) c23 in simp_all)
      have "days_before_year y = 146097 * a + 36524 * b + 1461 * c + 365 * 3"
        unfolding y(1) by (rule year_decomp(1)) (use b3 f2(4) f3(4) c23 in simp_all)
      then have "ymd2ord y m d = n0"
        using l y(2,3) n(2) f1(1) f2(1) f3(1) f4(1) True r40
        by (simp add: ymd2ord_def days_before_month_def DAYS_BEFORE_MONTH_def)
      moreover have "1 \<le> y" using y(1) f1(4) f2(4) f3(4) by simp
      ultimately show ?thesis using y(2,3) by (simp add: days_in_month_def DAYS_IN_MONTH_def)
    next
      case e: False
      then have e3: "e \<le> 3" using e4 by simp
      have y: "y = 400 * a + 100 * b + 4 * c + e + 1" and md: "month_day_of leap r4 = (m, d)"
        using res2 e False Y by simp_all
      have l: "isleap y = leap" unfolding y leap_def
        by (rule year_decomp(2)) (use b3 f2(4) f3(4) c24 f4(4) e3 in simp_all)
      have dy: "days_before_year y = 146097 * a + 36524 * b + 1461 * c + 365 * e"
        unfolding y by (rule year_decomp(1)) (use b3 f2(4) f3(4) c24 f4(4) e3 in simp_all)
      have ok: "1 \<le> m \<and> m \<le> 12 \<and> 1 \<le> d
          \<and> d \<le> DAYS_IN_MONTH ! nat m + (if m = 2 \<and> leap then 1 else 0)
          \<and> DAYS_BEFORE_MONTH ! nat m + (if m > 2 \<and> leap then 1 else 0) + d = r4 + 1"
        using month_day_ok [OF f4(2,3), of leap] md by (simp add: month_day_ok_def)
      have "ymd2ord y m d = n0"
        using ok dy l n(2) f1(1) f2(1) f3(1) f4(1)
        by (simp add: ymd2ord_def days_before_month_def)
      moreover have "1 \<le> y" using y f1(4) f2(4) f3(4) f4(4) by simp
      moreover have "d \<le> days_in_month y m" using ok l by (simp add: days_in_month_alt)
      ultimately show ?thesis using ok by simp
    qed
  qed
qed

lemma ord2ymd_valid:
  assumes "1 \<le> n0" "n0 \<le> MAXORDINAL" and "ord2ymd n0 = (y, m, d)"
  shows "valid_date y m d" and "ymd2ord y m d = n0"
proof -
  note c = ord2ymd_correct [OF assms(1,3)]
  show "ymd2ord y m d = n0" using c by simp
  have "y \<le> 9999"
  proof (rule ccontr)
    assume "\<not> y \<le> 9999"
    then have "days_before_year 10000 \<le> days_before_year y"
      by (intro days_before_year_mono) simp
    moreover have "days_before_month y 1 \<le> days_before_month y m"
      using c by (intro days_before_month_mono) simp_all
    ultimately have "3652059 + 1 \<le> ymd2ord y m d"
      using c by (simp add: ymd2ord_def days_before_year_10000 days_before_month_first)
    then show False using c assms(2) by (simp add: MAXORDINAL_def)
  qed
  then show "valid_date y m d" using c by (simp add: valid_date_def MINYEAR_def MAXYEAR_def)
qed

text \<open>Dates and times as microseconds.\<close>

lemma time_of_day_bounds:
  assumes "valid_time H M S us"
  shows "0 \<le> ((H * 60 + M) * 60 + S) * 1000000 + us"
    and "((H * 60 + M) * 60 + S) * 1000000 + us < 86400000000"
  using assms by (simp_all add: valid_time_def)

lemma radix_less:
  fixes q q' r r' B :: int
  assumes "0 \<le> r" "r < B" "0 \<le> r'" "r' < B" and "q < q' \<or> (q = q' \<and> r < r')"
  shows "q * B + r < q' * B + r'"
proof (cases "q < q'")
  case True
  then have "q + 1 \<le> q'" by simp
  moreover have "0 \<le> B" using assms(1,2) by simp
  ultimately have "(q + 1) * B \<le> q' * B" by (rule mult_right_mono)
  then show ?thesis using assms(2,3) by (simp add: algebra_simps)
next
  case False
  then show ?thesis using assms(5) by simp
qed

lemma time_of_day_less:
  assumes "valid_time H M S us" and "valid_time H' M' S' us'"
    and "(H, M, S, us) < (H', M', S', us')"
  shows "((H * 60 + M) * 60 + S) * 1000000 + us < ((H' * 60 + M') * 60 + S') * 1000000 + us'"
proof -
  have v: "0 \<le> M" "M < 60" "0 \<le> S" "S < 60" "0 \<le> us" "us < 1000000"
    using assms(1) by (simp_all add: valid_time_def)
  have v': "0 \<le> M'" "M' < 60" "0 \<le> S'" "S' < 60" "0 \<le> us'" "us' < 1000000"
    using assms(2) by (simp_all add: valid_time_def)
  have lex: "H < H' \<or> (H = H' \<and> (M < M' \<or> (M = M' \<and> (S < S' \<or> (S = S' \<and> us < us')))))"
    using assms(3) by (auto simp: order.order_iff_strict)
  define a where "a = H * 60 + M"
  define a' where "a' = H' * 60 + M'"
  define b where "b = a * 60 + S"
  define b' where "b' = a' * 60 + S'"
  have 1: "H < H' \<or> (H = H' \<and> M < M') \<Longrightarrow> a < a'"
    unfolding a_def a'_def by (rule radix_less [OF v(1,2) v'(1,2)])
  have 2: "a < a' \<or> (a = a' \<and> S < S') \<Longrightarrow> b < b'"
    unfolding b_def b'_def by (rule radix_less [OF v(3,4) v'(3,4)])
  have 3: "b < b' \<or> (b = b' \<and> us < us') \<Longrightarrow> b * 1000000 + us < b' * 1000000 + us'"
    by (rule radix_less [OF v(5,6) v'(5,6)])
  have e: "H = H' \<Longrightarrow> M = M' \<Longrightarrow> a = a'" by (simp add: a_def a'_def)
  have f: "a = a' \<Longrightarrow> S = S' \<Longrightarrow> b = b'" by (simp add: b_def b'_def)
  have "b * 1000000 + us < b' * 1000000 + us'"
    using lex 1 2 3 e f by blast
  then show ?thesis by (simp add: a_def a'_def b_def b'_def)
qed

lemma to_us_split:
  "to_us d = toordinal d * 86400000000
     + (((dt_hour d * 60 + dt_minute d) * 60 + dt_second d) * 1000000 + dt_microsecond d)"
  by (simp add: to_us_def algebra_simps)

lemma dt_less_to_us:
  assumes "valid_datetime a" and "valid_datetime b" and "dt_less a b"
  shows "to_us a < to_us b"
proof -
  have va: "valid_date (dt_year a) (dt_month a) (dt_day a)"
      "valid_time (dt_hour a) (dt_minute a) (dt_second a) (dt_microsecond a)"
    using assms(1) by (simp_all add: valid_datetime_def)
  have vb: "valid_date (dt_year b) (dt_month b) (dt_day b)"
      "valid_time (dt_hour b) (dt_minute b) (dt_second b) (dt_microsecond b)"
    using assms(2) by (simp_all add: valid_datetime_def)
  note ta = time_of_day_bounds [OF va(2)] and tb = time_of_day_bounds [OF vb(2)]
  show ?thesis
  proof (cases "(dt_year a, dt_month a, dt_day a) < (dt_year b, dt_month b, dt_day b)")
    case True
    have "toordinal a < toordinal b"
      unfolding toordinal_def by (rule ymd2ord_less [OF va(1) vb(1) True])
    then have "(toordinal a + 1) * 86400000000 \<le> toordinal b * 86400000000" by simp
    then show ?thesis unfolding to_us_split using ta tb by (simp add: algebra_simps)
  next
    case False
    then have eq: "dt_year a = dt_year b" "dt_month a = dt_month b" "dt_day a = dt_day b"
      and lt: "(dt_hour a, dt_minute a, dt_second a, dt_microsecond a)
             < (dt_hour b, dt_minute b, dt_second b, dt_microsecond b)"
      using assms(3) by (auto simp: dt_less_def dt_tuple_def order.order_iff_strict)
    have o: "toordinal a = toordinal b" using eq by (simp add: toordinal_def)
    have "((dt_hour a * 60 + dt_minute a) * 60 + dt_second a) * 1000000 + dt_microsecond a
        < ((dt_hour b * 60 + dt_minute b) * 60 + dt_second b) * 1000000 + dt_microsecond b"
      by (rule time_of_day_less [OF va(2) vb(2) lt])
    then show ?thesis unfolding to_us_split o by simp
  qed
qed

lemma to_us_le_dt_ge:
  assumes "valid_datetime a" and "valid_datetime b" and "to_us a \<le> to_us b"
  shows "dt_ge b a"
proof (rule ccontr)
  assume "\<not> dt_ge b a"
  then have "dt_less b a" by (auto simp: dt_ge_def dt_less_def)
  from dt_less_to_us [OF assms(2,1) this] assms(3) show False by simp
qed

lemma to_us_inj:
  assumes "valid_datetime a" and "valid_datetime b" and "to_us a = to_us b"
  shows "a = b"
proof -
  have "dt_ge a b" "dt_ge b a"
    using assms to_us_le_dt_ge [of a b] to_us_le_dt_ge [of b a] by simp_all
  then have "dt_tuple a = dt_tuple b" by (simp add: dt_ge_def)
  then show ?thesis by (cases a, cases b) (simp add: dt_tuple_def)
qed


section \<open>Facts of the advancer\<close>

text \<open>Adding a timedelta.\<close>

lemma time_decomp:
  fixes rest :: int
  assumes "0 \<le> rest" "rest < 86400000000"
  defines "H \<equiv> rest div 3600000000" and "M \<equiv> rest div 60000000 mod 60"
    and "S \<equiv> rest div 1000000 mod 60" and "us \<equiv> rest mod 1000000"
  shows "valid_time H M S us" and "((H * 60 + M) * 60 + S) * 1000000 + us = rest"
proof -
  define s where "s = rest div 1000000"
  define mi where "mi = s div 60"
  have a: "rest = 1000000 * s + us" "0 \<le> us" "us < 1000000"
    by (simp_all add: s_def us_def)
  have b: "s = 60 * mi + S" "0 \<le> S" "S < 60"
    by (simp_all add: mi_def S_def s_def)
  have m1: "rest div 60000000 = mi"
    using zdiv_zmult2_eq [of 60 rest 1000000] by (simp add: mi_def s_def)
  have h1: "rest div 3600000000 = mi div 60"
    using zdiv_zmult2_eq [of 60 rest 60000000] m1 by simp
  have c: "mi = 60 * H + M" "0 \<le> M" "M < 60"
    by (simp_all add: H_def M_def m1 h1)
  have s0: "0 \<le> s" "s < 86400" using a assms(1,2) by linarith+
  have mi0: "0 \<le> mi" "mi < 1440" using b s0 by linarith+
  have H0: "0 \<le> H" "H < 24" using c mi0 by linarith+
  show "valid_time H M S us"
    using a b c H0 by (simp add: valid_time_def)
  show "((H * 60 + M) * 60 + S) * 1000000 + us = rest"
    using a(1) b(1) c(1) by simp
qed

lemma datetime_add_Inr:
  assumes "valid_datetime d" and "datetime_add d td = Inr d'"
  shows "valid_datetime d'" and "to_us d' = to_us d + td"
proof -
  define t where "t = to_us d + td"
  define days where "days = t div 86400000000"
  define rest where "rest = t mod 86400000000"
  obtain y m dd where o: "ord2ymd days = (y, m, dd)" by (cases "ord2ymd days") auto
  have r: "0 < days" "days \<le> MAXORDINAL"
    and d': "d' = \<lparr>dt_year = y, dt_month = m, dt_day = dd,
                  dt_hour = rest div 3600000000,
                  dt_minute = rest div 60000000 mod 60,
                  dt_second = rest div 1000000 mod 60,
                  dt_microsecond = rest mod 1000000\<rparr>"
    using assms(2) o
    unfolding datetime_add_def Let_def US_PER_DAY_def t_def [symmetric]
      days_def [symmetric] rest_def [symmetric]
    by (auto split: if_splits)
  have rest: "0 \<le> rest" "rest < 86400000000" "t = 86400000000 * days + rest"
    by (simp_all add: rest_def days_def)
  from r have "1 \<le> days" by simp
  note v = ord2ymd_valid [OF this r(2) o]
  note td = time_decomp [OF rest(1,2)]
  show "valid_datetime d'" using v(1) td(1) by (simp add: d' valid_datetime_def)
  have "to_us d' = days * 86400000000
      + (((rest div 3600000000 * 60 + rest div 60000000 mod 60) * 60
           + rest div 1000000 mod 60) * 1000000 + rest mod 1000000)"
    unfolding to_us_split by (simp add: d' toordinal_def v(2))
  also have "\<dots> = t" unfolding td(2) using rest(3) by simp
  finally show "to_us d' = to_us d + td" by (simp add: t_def)
qed

lemma datetime_add_zero:
  assumes "valid_datetime d"
  shows "datetime_add d 0 = Inr d"
proof -
  have v: "valid_date (dt_year d) (dt_month d) (dt_day d)"
      "valid_time (dt_hour d) (dt_minute d) (dt_second d) (dt_microsecond d)"
    using assms by (simp_all add: valid_datetime_def)
  note t = time_of_day_bounds [OF v(2)]
  note o = ymd2ord_bounds [OF v(1), folded toordinal_def]
  define rest where "rest = ((dt_hour d * 60 + dt_minute d) * 60 + dt_second d) * 1000000
      + dt_microsecond d"
  have e: "to_us d = 86400000000 * toordinal d + rest"
    unfolding to_us_split rest_def by simp
  have dv: "to_us d div 86400000000 = toordinal d"
    by (rule int_div_pos_eq [OF e]) (use t in \<open>simp_all add: rest_def\<close>)
  have "0 < to_us d div US_PER_DAY \<and> to_us d div US_PER_DAY \<le> MAXORDINAL"
    using o dv by (simp add: US_PER_DAY_def)
  then obtain d' where d': "datetime_add d 0 = Inr d'"
    by (cases "ord2ymd (to_us d div US_PER_DAY)") (simp add: datetime_add_def Let_def)
  from datetime_add_Inr [OF assms d'] have "valid_datetime d'" "to_us d' = to_us d" by simp_all
  then have "d' = d" using to_us_inj assms by blast
  then show ?thesis using d' by simp
qed





























lemma advance_unfold:
  "advance now u v d =
     (if dt_less d now
      then (case add_period u v d of
              Inl e \<Rightarrow> Some (Inl e)
            | Inr d' \<Rightarrow> advance now u v d')
      else Some (Inr d))"
  by (subst advance.simps) (simp add: add_period_def split: sum.splits)


declare add_periods.simps(2) [simp del]




section \<open>Properties of the advancer and the router\<close>




text \<open>A date that one addition leaves as it is stays in the loop for ever.\<close>

lemma advance_fixed_point:
  assumes "dt_less d now" and "add_period u v d = Inr d"
  shows "advance now u v d = None"
proof (rule ccontr)
  assume "advance now u v d \<noteq> None"
  then obtain y where y: "advance now u v d = Some y" by blast
  from assms(2) obtain delta where kw: "relativedelta_kw u v = Inr delta"
    and ad: "rd_add delta d = Inr d"
    by (auto simp: add_period_def split: sum.splits)
  have "\<not> (now = now \<and> u = u \<and> v = v \<and> d = d)"
  proof (rule advance.raw_induct
      [where P = "\<lambda>a b c e y. \<not> (a = now \<and> b = u \<and> c = v \<and> e = d)", OF _ y])
    fix adv a b c e y'
    assume IH: "\<And>a b c e y. adv a b c e = Some y \<Longrightarrow> \<not> (a = now \<and> b = u \<and> c = v \<and> e = d)"
      and body: "(if dt_less e a
                  then (case relativedelta_kw b c of
                          Inl x \<Rightarrow> Some (Inl x)
                        | Inr delta \<Rightarrow>
                            (case rd_add delta e of
                               Inl x \<Rightarrow> Some (Inl x)
                             | Inr due' \<Rightarrow> adv a b c due'))
                  else Some (Inr e)) = Some y'"
    show "\<not> (a = now \<and> b = u \<and> c = v \<and> e = d)"
    proof
      assume eq: "a = now \<and> b = u \<and> c = v \<and> e = d"
      then have "adv now u v d = Some y'"
        using body assms(1) kw ad by simp
      from IH [OF this] show False by simp
    qed
  qed
  then show False by simp
qed

text \<open>A key that the constructor does not know ends the loop at once.\<close>

lemma relativedelta_kw_unknown:
  assumes "key \<notin> set relativedelta_keys"
  shows "relativedelta_kw key v = Inl TypeError"
  using assms by (simp add: relativedelta_keys_def relativedelta_kw_def)

lemma unknown_unit_skipped:
  assumes "Card_period_type crd \<notin> set relativedelta_keys"
    and "dt_less (Card_due crd) now"
  shows "advance now (Card_period_type crd) (Card_period_len crd) (Card_due crd)
           = Some (Inl TypeError)"
    and "process_card requester now crd lsts st = Some (logger ERROR Failed_to_calculate_due st)"
proof -
  show a: "advance now (Card_period_type crd) (Card_period_len crd) (Card_due crd)
           = Some (Inl TypeError)"
    using assms(2) relativedelta_kw_unknown [OF assms(1)]
    by (subst advance.simps) simp
  show "process_card requester now crd lsts st = Some (logger ERROR Failed_to_calculate_due st)"
    by (simp add: process_card_def a)
qed

text \<open>
  C4, at the task with the notes \<^verbatim>\<open>0 days\<close>, due on the first of January 2023, with
  \<^verbatim>\<open>current_time\<close> on the twentieth. The filter passes the task with the count 0. One
  addition leaves the due date as it is, so the loop does not end: neither
  \<^verbatim>\<open>process_card\<close> nor \<^verbatim>\<open>main\<close> returns.
\<close>

theorem zero_count_never_returns:
  "snd (filter_out_cards now0 [task_zero])
     = Inr [make_card task_zero (at_midnight 2023 1 1) (0, ''days'')]
   \<and> add_period ''days'' 0 (at_midnight 2023 1 1) = Inr (at_midnight 2023 1 1)
   \<and> advance now0 ''days'' 0 (at_midnight 2023 1 1) = None
   \<and> process_card (fixed_board [task_zero]) now0
        (make_card task_zero (at_midnight 2023 1 1) (0, ''days'')) week_lists start_state = None
   \<and> main (fixed_board [task_zero]) now0 () = None"
proof -
  have f: "filter_out_cards now0 [task_zero]
     = ([Log INFO Check_card], Inr [make_card task_zero (at_midnight 2023 1 1) (0, ''days'')])"
    by code_simp
  have s: "add_period ''days'' 0 (at_midnight 2023 1 1) = Inr (at_midnight 2023 1 1)"
    by code_simp
  have l: "dt_less (at_midnight 2023 1 1) now0" by code_simp
  have a: "advance now0 ''days'' 0 (at_midnight 2023 1 1) = None"
    by (rule advance_fixed_point [OF l s])
  have c: "Card_period_type (make_card task_zero (at_midnight 2023 1 1) (0, ''days'')) = ''days''"
      "Card_period_len (make_card task_zero (at_midnight 2023 1 1) (0, ''days'')) = 0"
      "Card_due (make_card task_zero (at_midnight 2023 1 1) (0, ''days'')) = at_midnight 2023 1 1"
    by (simp_all add: make_card_def)
  have p: "process_card requester now0
        (make_card task_zero (at_midnight 2023 1 1) (0, ''days'')) lsts st = None"
    for requester :: "unit Requester" and lsts st
    by (simp add: process_card_def c a)
  have g: "get_lists (fixed_board [task_zero]) \<lparr>world = (), trace = []\<rparr>
      = ([\<lparr>List_name = Monday, List_identifier = ''L1''\<rparr>],
         \<lparr>world = (), trace = [GetLists, Log INFO Received_lists,
                                 Log ERROR Not_all_necessary_lists]\<rparr>)"
    by code_simp
  have gc: "get_cards (fixed_board [task_zero]) \<lparr>List_name = Monday, List_identifier = ''L1''\<rparr>
        (logger INFO Start_to_process_list (logger INFO Started_to_update
           \<lparr>world = (), trace = [GetLists, Log INFO Received_lists,
                                   Log ERROR Not_all_necessary_lists]\<rparr>))
      = ([task_zero],
         \<lparr>world = (), trace = [GetLists, Log INFO Received_lists,
                                 Log ERROR Not_all_necessary_lists, Log INFO Started_to_update,
                                 Log INFO Start_to_process_list, GetCards ''L1'',
                                 Log INFO Cards_found]\<rparr>)"
    by code_simp
  have m: "main (fixed_board [task_zero]) now0 () = None"
    unfolding main_def g by (simp add: gc f p)
  show ?thesis using f s a p m by simp
qed

text \<open>
  Two more rules with a positive count that the constructor accepts and that do not
  advance the date: \<^verbatim>\<open>1 day\<close> sets the day of the month to 1, and \<^verbatim>\<open>1 leapdays\<close> adds
  nothing to a date in January.
\<close>

lemma singular_day_never_returns:
  "add_period ''day'' 1 (at_midnight 2023 1 5) = Inr (at_midnight 2023 1 1)
   \<and> advance now0 ''day'' 1 (at_midnight 2023 1 5) = None"
proof -
  have s1: "add_period ''day'' 1 (at_midnight 2023 1 5) = Inr (at_midnight 2023 1 1)"
    by code_simp
  have s2: "add_period ''day'' 1 (at_midnight 2023 1 1) = Inr (at_midnight 2023 1 1)"
    by code_simp
  have l: "dt_less (at_midnight 2023 1 5) now0" "dt_less (at_midnight 2023 1 1) now0"
    by code_simp+
  have "advance now0 ''day'' 1 (at_midnight 2023 1 5)
      = advance now0 ''day'' 1 (at_midnight 2023 1 1)"
    using l(1) s1 by (subst advance_unfold) simp
  then show ?thesis using s1 advance_fixed_point [OF l(2) s2] by simp
qed

lemma leapdays_never_returns:
  "advance now0 ''leapdays'' 1 (at_midnight 2023 1 1) = None"
proof -
  have s: "add_period ''leapdays'' 1 (at_midnight 2023 1 1) = Inr (at_midnight 2023 1 1)"
    by code_simp
  have l: "dt_less (at_midnight 2023 1 1) now0" by code_simp
  show ?thesis by (rule advance_fixed_point [OF l s])
qed







text \<open>
  C9. The task due on 2023-01-01 with the notes \<^verbatim>\<open>1 weeks\<close>, at the time 2023-01-20: the
  filter passes it with the count 1 and the unit \<^verbatim>\<open>weeks\<close>; the loop adds three weeks
  (the eighth and the fifteenth are before the time) and ends with 2023-01-22; that day
  is a Sunday, index 6 of the names; among the seven lists the target is the Sunday list,
  and the request moves the task there with the new due date.
\<close>

theorem weekly_scenario:
  "strptime (Some ''2023-01-01T00:00:00.000Z'') = Inr (at_midnight 2023 1 1)
   \<and> strptime (Some ''2023-01-20T00:00:00.000Z'') = Inr now0
   \<and> parsed_period task_weekly = Some (1, ''weeks'')
   \<and> snd (filter_out_cards now0 [task_weekly]) = Inr [card_weekly]
   \<and> add_periods 1 ''weeks'' 1 (at_midnight 2023 1 1) = Inr (at_midnight 2023 1 8)
   \<and> add_periods 2 ''weeks'' 1 (at_midnight 2023 1 1) = Inr (at_midnight 2023 1 15)
   \<and> add_periods 3 ''weeks'' 1 (at_midnight 2023 1 1) = Inr (at_midnight 2023 1 22)
   \<and> dt_less (at_midnight 2023 1 15) now0 \<and> dt_ge (at_midnight 2023 1 22) now0
   \<and> advance now0 ''weeks'' 1 (at_midnight 2023 1 1) = Some (Inr (at_midnight 2023 1 22))
   \<and> weekday (at_midnight 2023 1 22) = 6 \<and> list_names ! 6 = Sunday
   \<and> target_list (at_midnight 2023 1 22) week_lists
       = Inr (Some \<lparr>List_name = Sunday, List_identifier = ''L7''\<rparr>)
   \<and> process_card (fixed_board []) now0 card_weekly week_lists start_state
       = Some \<lparr>world = (),
               trace = [Put (Relocate ''c1'' (at_midnight 2023 1 22) ''L7''),
                        Log INFO Due_date_updated]\<rparr>"
  by code_simp

end
